theory Spec2Isabelle
  imports Main "HOL-Library.Multiset" "HOL-Library.Sublist"
begin

section \<open>Errors\<close>

text \<open>
  A Go \<open>error\<close> value. \<open>New msg\<close> is an error made by \<open>errors.New\<close> or by
  \<open>fmt.Errorf\<close> without a \<open>%w\<close> verb; \<open>Wrapped msg inner\<close> is the value of
  \<open>fmt.Errorf("...: %w", ..., inner)\<close>: it carries the formatted message and the
  error it wraps. A nil error is \<open>None\<close> of \<open>error option\<close>.
\<close>

datatype error = New string | Wrapped string error

fun Error :: "error \<Rightarrow> string" where
  "Error (New msg) = msg"
| "Error (Wrapped msg inner) = msg"

fun Unwrap :: "error \<Rightarrow> error option" where
  "Unwrap (New msg) = None"
| "Unwrap (Wrapped msg inner) = Some inner"

text \<open>
  \<open>errors.Is\<close>: the target is the error itself or stands somewhere in its chain. The
  errors are compared as values here, where Go compares them by identity; the two agree
  where the target is the very error that was wrapped, which is how it is used below.
\<close>

fun errors_Is :: "error \<Rightarrow> error \<Rightarrow> bool" where
  "errors_Is (New msg) target = (New msg = target)"
| "errors_Is (Wrapped msg inner) target = (Wrapped msg inner = target \<or> errors_Is inner target)"

text \<open>\<open>fmt.Errorf(msg + "%w", err)\<close>: the message ends with the wrapped error's message.\<close>

definition Errorf_w :: "string \<Rightarrow> error \<Rightarrow> error" where
  "Errorf_w msg err = Wrapped (msg @ Error err) err"

section \<open>Data model\<close>

subsection \<open>Types of the provider library and of the fleeting framework\<close>

text \<open>
  The structs of the UpCloud client library and of the fleeting provider package, with
  the fields this plugin reads or writes. A field whose name is used by two structs has
  a prefix in all but one of them.
\<close>

record Label =
  label_Key :: string
  label_Value :: string

record Server =
  UUID :: string
  State :: string

record IPAddress =
  Access :: string
  Address :: string
  Family :: string

text \<open>\<open>upcloud.ServerDetails\<close> embeds \<open>upcloud.Server\<close>.\<close>

record ServerDetails = Server +
  IPAddresses :: "IPAddress list"

record Servers =
  Servers :: "Server list"

record CreateServerStorageDevice =
  Action :: string
  Storage :: string
  Title :: string
  Size :: int
  Tier :: string

record CreateServerIPAddress =
  ip_Family :: string

record CreateServerInterface =
  if_IPAddresses :: "CreateServerIPAddress list"
  if_Type :: string

record CreateServerNetworking =
  Interfaces :: "CreateServerInterface list"

record LoginUser =
  login_Username :: string
  SSHKeys :: "string list"

record CreateServerRequest =
  Hostname :: string
  req_Title :: string
  req_Plan :: string
  req_Zone :: string
  Metadata :: int
  Labels :: "Label list"
  StorageDevices :: "CreateServerStorageDevice list"
  Networking :: CreateServerNetworking
  req_LoginUser :: "LoginUser option"
  req_UserData :: string

record StopServerRequest =
  stop_UUID :: string
  StopType :: string

record WaitForServerStateRequest =
  wait_UUID :: string
  DesiredState :: string

record DeleteServerAndStoragesRequest =
  delete_UUID :: string

record GetServerDetailsRequest =
  details_UUID :: string

text \<open>The only filter this plugin builds is a \<open>request.FilterLabel\<close>.\<close>

record GetServersWithFiltersRequest =
  Filters :: "Label list"

record ConnectorConfig =
  OS :: string
  Arch :: string
  Protocol :: string
  cc_Username :: string
  Key :: string

record Settings =
  ConnectorConfig :: ConnectorConfig

text \<open>\<open>provider.ConnectInfo\<close> embeds \<open>provider.ConnectorConfig\<close>.\<close>

record ConnectInfo = ConnectorConfig +
  ID :: string
  ExternalAddr :: string
  InternalAddr :: string

datatype State = StateCreating | StateRunning | StateDeleted

subsection \<open>Constants\<close>

text \<open>
  Modelled from the spec: the string constants of the UpCloud client library and of the
  fleeting provider package, which are not part of this repository's sources. The spec's
  state table names the provider states \<open>started\<close>, \<open>stopped\<close> and \<open>error\<close>, its
  address partition \<open>public\<close> and \<open>private\<close> access of \<open>IPv4\<close> addresses, and its
  fallback protocol \<open>ssh\<close>.
\<close>

definition ServerStateStarted :: string where "ServerStateStarted = ''started''"
definition ServerStateStopped :: string where "ServerStateStopped = ''stopped''"
definition ServerStateError :: string where "ServerStateError = ''error''"
definition IPAddressFamilyIPv4 :: string where "IPAddressFamilyIPv4 = ''IPv4''"
definition IPAddressAccessPublic :: string where "IPAddressAccessPublic = ''public''"
definition IPAddressAccessPrivate :: string where "IPAddressAccessPrivate = ''private''"
definition NetworkTypePublic :: string where "NetworkTypePublic = ''public''"
definition NetworkTypePrivate :: string where "NetworkTypePrivate = ''private''"
definition ServerStopTypeHard :: string where "ServerStopTypeHard = ''hard''"
definition CreateServerStorageDeviceActionClone :: string where
  "CreateServerStorageDeviceActionClone = ''clone''"
definition upcloud_True :: int where "upcloud_True = 1"
definition ProtocolSSH :: string where "ProtocolSSH = ''ssh''"

text \<open>The constants of the plugin itself.\<close>

definition groupLabelKey :: string where "groupLabelKey = ''fleeting-group''"
definition defaultPlan :: string where "defaultPlan = ''1xCPU-2GB''"
definition defaultNamePrefix :: string where "defaultNamePrefix = ''fleeting''"
definition defaultMaxSize :: int where "defaultMaxSize = 100"

subsection \<open>The instance group\<close>

text \<open>
  The configuration and internal state of \<open>InstanceGroup\<close>. The logger and the provider
  service of the Go struct are not fields here: the log is part of the world the
  operations run in, and the service is passed to each operation.
\<close>

record InstanceGroup =
  Token :: string
  Username :: string
  Password :: string
  Zone :: string
  Template :: string
  Name :: string
  Plan :: string
  StorageSize :: int
  StorageTier :: string
  NamePrefix :: string
  MaxSize :: int
  UsePrivateNetwork :: bool
  UserData :: string
  settings :: Settings
  publicKey :: string

section \<open>State mapper\<close>

definition mapServerState :: "string \<Rightarrow> State" where
  "mapServerState s =
     (if s = ServerStateStarted then StateRunning
      else if s = ServerStateStopped \<or> s = ServerStateError then StateDeleted
      else StateCreating)"

section \<open>Validator\<close>

text \<open>
  \<open>validate\<close> returns its error and the group as the method leaves it: unchanged on an
  error, with the defaults filled in on success.
\<close>

definition validate :: "InstanceGroup \<Rightarrow> error option \<times> InstanceGroup" where
  "validate g =
     (if Token g = '''' \<and> (Username g = '''' \<or> Password g = '''') then
        (Some (New ''either token or both username and password are required''), g)
      else if Zone g = '''' then (Some (New ''zone is required''), g)
      else if Template g = '''' then (Some (New ''template is required''), g)
      else if Name g = '''' then (Some (New ''name is required''), g)
      else
        let g1 = (if Plan g = '''' then g\<lparr>Plan := defaultPlan\<rparr> else g);
            g2 = (if NamePrefix g1 = '''' then g1\<lparr>NamePrefix := defaultNamePrefix\<rparr> else g1);
            g3 = (if MaxSize g2 = 0 then g2\<lparr>MaxSize := defaultMaxSize\<rparr> else g2)
        in (None, g3))"

text \<open>
  \<open>newClient\<close>: the API client uses the bearer token if \<open>Token\<close> is set, and Basic Auth
  with the username and the password otherwise; both with a timeout of 30 seconds.
\<close>

record Client =
  client_username :: string
  client_password :: string
  bearer_token :: "string option"
  timeout_seconds :: nat

definition newClient :: "InstanceGroup \<Rightarrow> Client" where
  "newClient g =
     (if Token g \<noteq> '''' then
        \<lparr>client_username = '''', client_password = '''', bearer_token = Some (Token g),
         timeout_seconds = 30\<rparr>
      else
        \<lparr>client_username = Username g, client_password = Password g, bearer_token = None,
         timeout_seconds = 30\<rparr>)"

text \<open>The two authentication modes of a configuration.\<close>

definition token_mode :: "InstanceGroup \<Rightarrow> bool" where
  "token_mode g = (Token g \<noteq> '''')"

definition userpass_mode :: "InstanceGroup \<Rightarrow> bool" where
  "userpass_mode g = (Username g \<noteq> '''' \<and> Password g \<noteq> '''')"

text \<open>"Exactly one mode, not both", as the invariant of the data model words it.\<close>

definition exactly_one_mode :: "InstanceGroup \<Rightarrow> bool" where
  "exactly_one_mode g = (token_mode g \<noteq> userpass_mode g)"

text \<open>A configuration with nothing set, the zero value of the Go struct.\<close>

definition zeroGroup :: InstanceGroup where
  "zeroGroup = \<lparr>Token = '''', Username = '''', Password = '''', Zone = '''', Template = '''',
     Name = '''', Plan = '''', StorageSize = 0, StorageTier = '''', NamePrefix = '''',
     MaxSize = 0, UsePrivateNetwork = False, UserData = '''',
     settings = \<lparr>ConnectorConfig = \<lparr>OS = '''', Arch = '''', Protocol = '''',
       cc_Username = '''', Key = ''''\<rparr>\<rparr>,
     publicKey = ''''\<rparr>"

section \<open>The provider and the world\<close>

text \<open>
  The provider capability interface \<open>upcloudSvc\<close>, as the test double of the repository
  has it: one function per method, here over a provider state \<open>'s\<close> that each call may
  read and change. A Go result, a pointer with an error, is a value of \<open>error + T\<close>: every caller
  checks the error first and reads the pointer only when the error is nil, and the
  methods of the library return the address of a struct of their own, never a nil pointer
  with a nil error. The cancellation context is not modelled; a cancelled call is a call
  that returns an error.
  \<open>GetAccount\<close> is used by \<open>Init\<close> only, which is not modelled.
\<close>

record 's upcloudSvc =
  GetServersWithFilters :: "GetServersWithFiltersRequest \<Rightarrow> 's \<Rightarrow> (error + Servers) \<times> 's"
  CreateServer :: "CreateServerRequest \<Rightarrow> 's \<Rightarrow> (error + ServerDetails) \<times> 's"
  StopServer :: "StopServerRequest \<Rightarrow> 's \<Rightarrow> (error + ServerDetails) \<times> 's"
  WaitForServerState :: "WaitForServerStateRequest \<Rightarrow> 's \<Rightarrow> (error + ServerDetails) \<times> 's"
  DeleteServerAndStorages :: "DeleteServerAndStoragesRequest \<Rightarrow> 's \<Rightarrow> error option \<times> 's"
  GetServerDetails :: "GetServerDetailsRequest \<Rightarrow> 's \<Rightarrow> (error + ServerDetails) \<times> 's"

datatype call =
    GetServersWithFiltersCall GetServersWithFiltersRequest
  | CreateServerCall CreateServerRequest
  | StopServerCall StopServerRequest
  | WaitForServerStateCall WaitForServerStateRequest
  | DeleteServerAndStoragesCall DeleteServerAndStoragesRequest
  | GetServerDetailsCall GetServerDetailsRequest

datatype level = LevelInfo | LevelWarn | LevelError

text \<open>
  The world an operation runs in: the provider's state, the provider calls made so far
  with the error each returned (oldest first), the log written so far, and the global
  random source of \<open>math/rand\<close> as the sequence of its raw draws and a position in it.
\<close>

record 's world =
  prov :: 's
  trace :: "(call \<times> error option) list"
  logs :: "(level \<times> string \<times> (string \<times> string) list) list"
  rand_src :: "nat \<Rightarrow> nat"
  rand_pos :: nat

definition result_err :: "error + 'a \<Rightarrow> error option" where
  "result_err res = (case res of Inl err \<Rightarrow> Some err | Inr v \<Rightarrow> None)"

text \<open>A provider call with a result, and one that returns an error only.\<close>

definition invoke :: "call \<Rightarrow> ('s \<Rightarrow> (error + 'a) \<times> 's) \<Rightarrow> 's world \<Rightarrow> (error + 'a) \<times> 's world" where
  "invoke c f w =
     (case f (prov w) of
        (res, p) \<Rightarrow> (res, w\<lparr>prov := p, trace := trace w @ [(c, result_err res)]\<rparr>))"

definition invoke_err :: "call \<Rightarrow> ('s \<Rightarrow> error option \<times> 's) \<Rightarrow> 's world \<Rightarrow> error option \<times> 's world" where
  "invoke_err c f w =
     (case f (prov w) of
        (res, p) \<Rightarrow> (res, w\<lparr>prov := p, trace := trace w @ [(c, res)]\<rparr>))"

definition log_msg :: "level \<Rightarrow> string \<Rightarrow> (string \<times> string) list \<Rightarrow> 's world \<Rightarrow> 's world" where
  "log_msg lvl msg args w = w\<lparr>logs := logs w @ [(lvl, msg, args)]\<rparr>"

text \<open>\<open>rand.Intn(n)\<close> for a positive \<open>n\<close>: the next draw, reduced to \<open>[0, n)\<close>.\<close>

definition Intn :: "nat \<Rightarrow> 's world \<Rightarrow> nat \<times> 's world" where
  "Intn n w = (rand_src w (rand_pos w) mod n, w\<lparr>rand_pos := Suc (rand_pos w)\<rparr>)"

text \<open>The provider calls a run has added to the trace.\<close>

definition new_calls :: "'s world \<Rightarrow> 's world \<Rightarrow> (call \<times> error option) list" where
  "new_calls w w' = drop (length (trace w)) (trace w')"

section \<open>Update\<close>

fun Update_loop :: "(string \<Rightarrow> State \<Rightarrow> 'o \<Rightarrow> 'o) \<Rightarrow> Server list \<Rightarrow> 'o \<Rightarrow> 'o" where
  "Update_loop fn [] ob = ob"
| "Update_loop fn (s # rest) ob = Update_loop fn rest (fn (UUID s) (mapServerState (State s)) ob)"

text \<open>
  The observer callback \<open>fn\<close> acts on an observer state \<open>'o\<close>; \<open>Update\<close> returns its
  error, the world and the observer state it leaves.
\<close>

definition Update ::
  "'s upcloudSvc \<Rightarrow> InstanceGroup \<Rightarrow> (string \<Rightarrow> State \<Rightarrow> 'o \<Rightarrow> 'o) \<Rightarrow> 's world \<Rightarrow> 'o
     \<Rightarrow> error option \<times> 's world \<times> 'o" where
  "Update svc g fn w ob =
     (let req = \<lparr>Filters = [\<lparr>label_Key = groupLabelKey, label_Value = Name g\<rparr>]\<rparr>;
          (res, w1) = invoke (GetServersWithFiltersCall req) (GetServersWithFilters svc req) w
      in case res of
           Inl err \<Rightarrow> (Some (Errorf_w ''listing group servers: '' err), w1, ob)
         | Inr servers \<Rightarrow> (None, w1, Update_loop fn (Servers servers) ob))"

text \<open>A callback that records its invocations, oldest first.\<close>

definition record_call :: "string \<Rightarrow> State \<Rightarrow> (string \<times> State) list \<Rightarrow> (string \<times> State) list" where
  "record_call ident st seen = seen @ [(ident, st)]"

section \<open>Increase\<close>

definition chars :: string where
  "chars = ''abcdefghijklmnopqrstuvwxyz0123456789''"

text \<open>\<open>randomSuffix\<close> fills the bytes from the first to the last, one draw each.\<close>

fun randomSuffix :: "nat \<Rightarrow> 's world \<Rightarrow> string \<times> 's world" where
  "randomSuffix 0 w = ([], w)"
| "randomSuffix (Suc n) w =
     (let (k, w1) = Intn (length chars) w;
          (rest, w2) = randomSuffix n w1
      in (chars ! k # rest, w2))"

definition createRequest :: "InstanceGroup \<Rightarrow> string \<Rightarrow> CreateServerRequest" where
  "createRequest g hostname =
     (let storageDevices =
            [\<lparr>Action = CreateServerStorageDeviceActionClone, Storage = Template g,
              Title = ''disk1'', Size = StorageSize g, Tier = StorageTier g\<rparr>];
          networking =
            \<lparr>Interfaces = [\<lparr>if_IPAddresses = [\<lparr>ip_Family = IPAddressFamilyIPv4\<rparr>],
                             if_Type = NetworkTypePublic\<rparr>]\<rparr>;
          networking =
            (if UsePrivateNetwork g then
               networking\<lparr>Interfaces := Interfaces networking @
                 [\<lparr>if_IPAddresses = [\<lparr>ip_Family = IPAddressFamilyIPv4\<rparr>],
                   if_Type = NetworkTypePrivate\<rparr>]\<rparr>
             else networking);
          createReq =
            \<lparr>Hostname = hostname, req_Title = ''fleeting-plugin-upcloud - '' @ hostname,
             req_Plan = Plan g, req_Zone = Zone g, Metadata = upcloud_True,
             Labels = [\<lparr>label_Key = groupLabelKey, label_Value = Name g\<rparr>],
             StorageDevices = storageDevices, Networking = networking,
             req_LoginUser = None, req_UserData = ''''\<rparr>;
          createReq =
            (if publicKey g \<noteq> '''' then
               createReq\<lparr>req_LoginUser :=
                 Some \<lparr>login_Username = cc_Username (ConnectorConfig (settings g)),
                       SSHKeys = [publicKey g]\<rparr>\<rparr>
             else createReq);
          createReq =
            (if UserData g \<noteq> '''' then createReq\<lparr>req_UserData := UserData g\<rparr> else createReq)
      in createReq)"

text \<open>One pass of the loop body: whether the server was created, and the world after.\<close>

definition Increase_attempt :: "'s upcloudSvc \<Rightarrow> InstanceGroup \<Rightarrow> 's world \<Rightarrow> bool \<times> 's world" where
  "Increase_attempt svc g w =
     (let (suffix, w1) = randomSuffix 8 w;
          hostname = NamePrefix g @ ''-'' @ suffix;
          createReq = createRequest g hostname;
          (res, w2) = invoke (CreateServerCall createReq) (CreateServer svc createReq) w1
      in case res of
           Inl err \<Rightarrow>
             (False, log_msg LevelError ''failed to create server''
                       [(''hostname'', hostname), (''error'', Error err)] w2)
         | Inr details \<Rightarrow>
             (True, log_msg LevelInfo ''created server'' [(''hostname'', hostname)] w2))"

text \<open>
  The loop \<open>for i := 0; i < n; i++\<close> with its counter \<open>succeeded\<close>. Both counters stay
  between 0 and \<open>n\<close>, so the 64-bit integers of Go never wrap here.
\<close>

function Increase_loop ::
  "'s upcloudSvc \<Rightarrow> InstanceGroup \<Rightarrow> int \<Rightarrow> int \<Rightarrow> int \<Rightarrow> 's world \<Rightarrow> int \<times> 's world" where
  "Increase_loop svc g n i succeeded w =
     (if i < n then
        Increase_loop svc g n (i + 1)
          (if fst (Increase_attempt svc g w) then succeeded + 1 else succeeded)
          (snd (Increase_attempt svc g w))
      else (succeeded, w))"
  by pat_completeness auto
termination
  by (relation "measure (\<lambda>(svc, g, n, i, succeeded, w). nat (n - i))") auto

definition Increase ::
  "'s upcloudSvc \<Rightarrow> InstanceGroup \<Rightarrow> int \<Rightarrow> 's world \<Rightarrow> (int \<times> error option) \<times> 's world" where
  "Increase svc g n w =
     (let (succeeded, w') = Increase_loop svc g n 0 0 w in ((succeeded, None), w'))"

definition is_CreateServer :: "call \<times> error option \<Rightarrow> bool" where
  "is_CreateServer ev = (case fst ev of CreateServerCall r \<Rightarrow> True | _ \<Rightarrow> False)"

section \<open>Decrease\<close>

subsection \<open>The removal of one instance\<close>

definition stopAndDelete :: "'s upcloudSvc \<Rightarrow> string \<Rightarrow> 's world \<Rightarrow> error option \<times> 's world" where
  "stopAndDelete svc uuid w =
     (let stopReq = \<lparr>stop_UUID = uuid, StopType = ServerStopTypeHard\<rparr>;
          (r1, w1) = invoke (StopServerCall stopReq) (StopServer svc stopReq) w
      in case r1 of
           Inl err \<Rightarrow> (Some (Errorf_w (''stopping server '' @ uuid @ '': '') err), w1)
         | Inr d1 \<Rightarrow>
             let waitReq = \<lparr>wait_UUID = uuid, DesiredState = ServerStateStopped\<rparr>;
                 (r2, w2) = invoke (WaitForServerStateCall waitReq)
                              (WaitForServerState svc waitReq) w1
             in case r2 of
                  Inl err \<Rightarrow>
                    (Some (Errorf_w (''waiting for server '' @ uuid @ '' to stop: '') err), w2)
                | Inr d2 \<Rightarrow>
                    let delReq = \<lparr>delete_UUID = uuid\<rparr>;
                        (r3, w3) = invoke_err (DeleteServerAndStoragesCall delReq)
                                     (DeleteServerAndStorages svc delReq) w2
                    in case r3 of
                         Some err \<Rightarrow>
                           (Some (Errorf_w (''deleting server '' @ uuid @ '': '') err), w3)
                       | None \<Rightarrow>
                           (None, log_msg LevelInfo ''removed instance'' [(''uuid'', uuid)] w3))"

text \<open>
  What the tasks of \<open>Decrease\<close> share: the world, and the two variables \<open>succeeded\<close> and
  \<open>firstErr\<close> that the mutex guards.
\<close>

record 's shared =
  sh_world :: "'s world"
  succeeded :: "string list"
  firstErr :: "error option"

text \<open>The body of the function that \<open>Decrease\<close> starts for one id, run on its own.\<close>

definition removal_task :: "'s upcloudSvc \<Rightarrow> string \<Rightarrow> 's shared \<Rightarrow> 's shared" where
  "removal_task svc uuid sh =
     (case stopAndDelete svc uuid (sh_world sh) of
        (Some err, w1) \<Rightarrow>
          sh\<lparr>sh_world := log_msg LevelError ''failed to remove instance''
                            [(''uuid'', uuid), (''error'', Error err)] w1,
             firstErr := (if firstErr sh = None then Some err else firstErr sh)\<rparr>
      | (None, w1) \<Rightarrow> sh\<lparr>sh_world := w1, succeeded := succeeded sh @ [uuid]\<rparr>)"

subsection \<open>The concurrent tasks\<close>

text \<open>
  \<open>Decrease\<close> starts one task per id and waits for all of them. A task is the body above
  cut at its atomic steps: each provider call, each log line, and each critical section
  under the mutex is one step, and the steps of different tasks interleave in any order.
  The place of a task in its body:
  \<^item> \<open>AtStop\<close>, \<open>AtWait\<close>, \<open>AtDelete\<close>: before the provider call of that name;
  \<^item> \<open>AtLogRemoved\<close>: before the log line that ends a successful \<open>stopAndDelete\<close>;
  \<^item> \<open>AtLogFailed err\<close>: \<open>stopAndDelete\<close> has returned \<open>err\<close>, before the log line;
  \<^item> \<open>AtAppend\<close>, \<open>AtSetErr err\<close>: before the critical section that appends the id, or
    that sets \<open>firstErr\<close> if it is still nil;
  \<^item> \<open>Done r\<close>: the task has returned; \<open>r\<close> is what its \<open>stopAndDelete\<close> returned.
\<close>

datatype pc =
    AtStop | AtWait | AtDelete | AtLogRemoved | AtLogFailed error
  | AtAppend | AtSetErr error | Done "error option"

definition task_step :: "'s upcloudSvc \<Rightarrow> string \<Rightarrow> pc \<Rightarrow> 's shared \<Rightarrow> pc \<times> 's shared" where
  "task_step svc uuid p sh =
     (case p of
        AtStop \<Rightarrow>
          (let stopReq = \<lparr>stop_UUID = uuid, StopType = ServerStopTypeHard\<rparr>;
               (r1, w1) = invoke (StopServerCall stopReq) (StopServer svc stopReq) (sh_world sh)
           in (case r1 of
                 Inl err \<Rightarrow> AtLogFailed (Errorf_w (''stopping server '' @ uuid @ '': '') err)
               | Inr d1 \<Rightarrow> AtWait,
               sh\<lparr>sh_world := w1\<rparr>))
      | AtWait \<Rightarrow>
          (let waitReq = \<lparr>wait_UUID = uuid, DesiredState = ServerStateStopped\<rparr>;
               (r2, w2) = invoke (WaitForServerStateCall waitReq)
                            (WaitForServerState svc waitReq) (sh_world sh)
           in (case r2 of
                 Inl err \<Rightarrow>
                   AtLogFailed (Errorf_w (''waiting for server '' @ uuid @ '' to stop: '') err)
               | Inr d2 \<Rightarrow> AtDelete,
               sh\<lparr>sh_world := w2\<rparr>))
      | AtDelete \<Rightarrow>
          (let delReq = \<lparr>delete_UUID = uuid\<rparr>;
               (r3, w3) = invoke_err (DeleteServerAndStoragesCall delReq)
                            (DeleteServerAndStorages svc delReq) (sh_world sh)
           in (case r3 of
                 Some err \<Rightarrow> AtLogFailed (Errorf_w (''deleting server '' @ uuid @ '': '') err)
               | None \<Rightarrow> AtLogRemoved,
               sh\<lparr>sh_world := w3\<rparr>))
      | AtLogRemoved \<Rightarrow>
          (AtAppend,
           sh\<lparr>sh_world := log_msg LevelInfo ''removed instance'' [(''uuid'', uuid)] (sh_world sh)\<rparr>)
      | AtLogFailed err \<Rightarrow>
          (AtSetErr err,
           sh\<lparr>sh_world := log_msg LevelError ''failed to remove instance''
                             [(''uuid'', uuid), (''error'', Error err)] (sh_world sh)\<rparr>)
      | AtAppend \<Rightarrow> (Done None, sh\<lparr>succeeded := succeeded sh @ [uuid]\<rparr>)
      | AtSetErr err \<Rightarrow>
          (Done (Some err),
           sh\<lparr>firstErr := (if firstErr sh = None then Some err else firstErr sh)\<rparr>)
      | Done r \<Rightarrow> (Done r, sh))"

text \<open>One task run on its own for a number of steps.\<close>

fun task_run :: "'s upcloudSvc \<Rightarrow> string \<Rightarrow> nat \<Rightarrow> pc \<times> 's shared \<Rightarrow> pc \<times> 's shared" where
  "task_run svc uuid 0 ps = ps"
| "task_run svc uuid (Suc k) ps = task_run svc uuid k (task_step svc uuid (fst ps) (snd ps))"

text \<open>
  A configuration of \<open>Decrease\<close>: the shared variables, and the tasks in the order of
  the ids, each with its id and its place. All tasks exist from the start: the loop that
  starts them changes nothing they share, and a task that has not run yet is at
  \<open>AtStop\<close> whether or not it was started.
\<close>

record 's config =
  shared :: "'s shared"
  tasks :: "(string \<times> pc) list"

definition Decrease_init :: "string list \<Rightarrow> 's world \<Rightarrow> 's config" where
  "Decrease_init instances w =
     \<lparr>shared = \<lparr>sh_world = w, succeeded = [], firstErr = None\<rparr>,
      tasks = map (\<lambda>uuid. (uuid, AtStop)) instances\<rparr>"

text \<open>The scheduler lets task \<open>i\<close> take its next step; a task that has returned stays.\<close>

definition exec_task :: "'s upcloudSvc \<Rightarrow> nat \<Rightarrow> 's config \<Rightarrow> 's config" where
  "exec_task svc i c =
     (if i < length (tasks c) then
        (let (uuid, p) = tasks c ! i;
             (p', sh') = task_step svc uuid p (shared c)
         in \<lparr>shared = sh', tasks = (tasks c)[i := (uuid, p')]\<rparr>)
      else c)"

text \<open>A schedule is the sequence of the tasks chosen, one per step.\<close>

fun run :: "'s upcloudSvc \<Rightarrow> nat list \<Rightarrow> 's config \<Rightarrow> 's config" where
  "run svc [] c = c"
| "run svc (i # sched) c = run svc sched (exec_task svc i c)"

definition is_Done :: "pc \<Rightarrow> bool" where
  "is_Done p = (case p of Done r \<Rightarrow> True | _ \<Rightarrow> False)"

definition all_done :: "'s config \<Rightarrow> bool" where
  "all_done c = list_all (\<lambda>t. is_Done (snd t)) (tasks c)"

text \<open>
  \<open>wg.Wait()\<close> returns once every task has returned; \<open>Decrease\<close> then returns the two
  shared variables. Before that it has not returned.
\<close>

definition Decrease_return :: "'s config \<Rightarrow> (string list \<times> error option) option" where
  "Decrease_return c =
     (if all_done c then Some (succeeded (shared c), firstErr (shared c)) else None)"

definition Decrease ::
  "'s upcloudSvc \<Rightarrow> nat list \<Rightarrow> string list \<Rightarrow> 's world
     \<Rightarrow> (string list \<times> error option) option \<times> 's world" where
  "Decrease svc sched instances w =
     (let c = run svc sched (Decrease_init instances w)
      in (Decrease_return c, sh_world (shared c)))"

text \<open>The ids of the tasks whose \<open>stopAndDelete\<close> returned nil, and the errors of the others.\<close>

definition removed_ids :: "(string \<times> pc) list \<Rightarrow> string list" where
  "removed_ids ts = map fst (filter (\<lambda>t. snd t = Done None) ts)"

fun returned_error :: "pc \<Rightarrow> error option" where
  "returned_error (Done r) = r"
| "returned_error p = None"

definition task_errors :: "(string \<times> pc) list \<Rightarrow> error list" where
  "task_errors ts =
     concat (map (\<lambda>t. case returned_error (snd t) of None \<Rightarrow> [] | Some err \<Rightarrow> [err]) ts)"

text \<open>
  How the two guarded variables stand to the tasks at every moment of a run: \<open>succeeded\<close>
  holds the ids of the tasks that returned after a successful removal, in some order, and
  \<open>firstErr\<close> is nil as long as no task has returned with an error, and the error of
  one of them after.
\<close>

definition shared_inv :: "'s config \<Rightarrow> bool" where
  "shared_inv c =
     (mset (succeeded (shared c)) = mset (removed_ids (tasks c)) \<and>
      (firstErr (shared c) = None \<longleftrightarrow> task_errors (tasks c) = []) \<and>
      (case firstErr (shared c) of None \<Rightarrow> True | Some err \<Rightarrow> err \<in> set (task_errors (tasks c))))"

text \<open>
  The provider calls behind the place of a task. \<open>removal_chain\<close> is the chain of the
  three calls for an id, each returning no error, and \<open>calls_made\<close> the part of it that a
  task at a place has behind it. A task that has failed carries the error that its
  \<open>stopAndDelete\<close> returned; \<open>wraps_failure\<close> says that this error wraps the error of a
  call in a trace.
\<close>

definition removal_chain :: "string \<Rightarrow> (call \<times> error option) list" where
  "removal_chain uuid =
     [(StopServerCall \<lparr>stop_UUID = uuid, StopType = ServerStopTypeHard\<rparr>, None),
      (WaitForServerStateCall \<lparr>wait_UUID = uuid, DesiredState = ServerStateStopped\<rparr>, None),
      (DeleteServerAndStoragesCall \<lparr>delete_UUID = uuid\<rparr>, None)]"

fun calls_made :: "string \<Rightarrow> pc \<Rightarrow> (call \<times> error option) list" where
  "calls_made uuid AtWait = take 1 (removal_chain uuid)"
| "calls_made uuid AtDelete = take 2 (removal_chain uuid)"
| "calls_made uuid AtLogRemoved = removal_chain uuid"
| "calls_made uuid AtAppend = removal_chain uuid"
| "calls_made uuid (Done None) = removal_chain uuid"
| "calls_made uuid p = []"

fun failure_of :: "pc \<Rightarrow> error option" where
  "failure_of (AtLogFailed err) = Some err"
| "failure_of (AtSetErr err) = Some err"
| "failure_of (Done r) = r"
| "failure_of p = None"

definition wraps_failure :: "error \<Rightarrow> (call \<times> error option) list \<Rightarrow> bool" where
  "wraps_failure err tr = list_ex (\<lambda>ev. snd ev \<noteq> None \<and> Unwrap err = snd ev) tr"

definition place_ok :: "(call \<times> error option) list \<Rightarrow> string \<times> pc \<Rightarrow> bool" where
  "place_ok tr t =
     (case failure_of (snd t) of
        Some err \<Rightarrow> wraps_failure err tr
      | None \<Rightarrow> subseq (calls_made (fst t) (snd t)) tr)"

text \<open>
  How the trace stands to the tasks at every moment of a run that started in the world
  \<open>w\<close>: the trace has only grown, and the calls added since hold, for every task, the
  calls behind its place.
\<close>

definition calls_inv :: "'s world \<Rightarrow> 's config \<Rightarrow> bool" where
  "calls_inv w c =
     (take (length (trace w)) (trace (sh_world (shared c))) = trace w \<and>
      list_all (place_ok (new_calls w (sh_world (shared c)))) (tasks c))"

text \<open>The steps a task still has to take, at most.\<close>

fun steps_left :: "pc \<Rightarrow> nat" where
  "steps_left AtStop = 5"
| "steps_left AtWait = 4"
| "steps_left AtDelete = 3"
| "steps_left AtLogRemoved = 2"
| "steps_left (AtLogFailed err) = 2"
| "steps_left AtAppend = 1"
| "steps_left (AtSetErr err) = 1"
| "steps_left (Done r) = 0"

section \<open>ConnectInfo\<close>

fun scan_addresses :: "IPAddress list \<Rightarrow> ConnectInfo \<Rightarrow> ConnectInfo" where
  "scan_addresses [] info = info"
| "scan_addresses (ip # rest) info =
     (if Family ip \<noteq> IPAddressFamilyIPv4 then scan_addresses rest info
      else if Access ip = IPAddressAccessPublic then
        scan_addresses rest (info\<lparr>ExternalAddr := Address ip\<rparr>)
      else if Access ip = IPAddressAccessPrivate then
        scan_addresses rest (info\<lparr>InternalAddr := Address ip\<rparr>)
      else scan_addresses rest info)"

definition ConnectInfo ::
  "'s upcloudSvc \<Rightarrow> InstanceGroup \<Rightarrow> string \<Rightarrow> 's world \<Rightarrow> (ConnectInfo \<times> error option) \<times> 's world" where
  "ConnectInfo svc g ident w =
     (let cc = ConnectorConfig (settings g);
          info = \<lparr>OS = OS cc, Arch = Arch cc, Protocol = Protocol cc,
                  cc_Username = cc_Username cc, Key = Key cc,
                  ID = '''', ExternalAddr = '''', InternalAddr = ''''\<rparr>;
          info = info\<lparr>ID := ident\<rparr>;
          req = \<lparr>details_UUID = ident\<rparr>;
          (res, w1) = invoke (GetServerDetailsCall req) (GetServerDetails svc req) w
      in case res of
           Inl err \<Rightarrow>
             ((info, Some (Errorf_w (''getting server details for '' @ ident @ '': '') err)), w1)
         | Inr details \<Rightarrow>
             let info = (if OS info = '''' then info\<lparr>OS := ''linux''\<rparr> else info);
                 info = (if Arch info = '''' then info\<lparr>Arch := ''amd64''\<rparr> else info);
                 info = (if Protocol info = '''' then info\<lparr>Protocol := ProtocolSSH\<rparr> else info);
                 info = scan_addresses (IPAddresses details) info;
                 info = (if UsePrivateNetwork g \<and> InternalAddr info \<noteq> ''''
                         then info\<lparr>ExternalAddr := InternalAddr info\<rparr> else info)
             in ((info, None), w1))"

text \<open>The addresses of a list that the scan reads: IPv4, of one access kind.\<close>

definition ipv4_of :: "string \<Rightarrow> IPAddress list \<Rightarrow> string list" where
  "ipv4_of access ips =
     map Address (filter (\<lambda>ip. Family ip = IPAddressFamilyIPv4 \<and> Access ip = access) ips)"

definition last_or_empty :: "string list \<Rightarrow> string" where
  "last_or_empty xs = (if xs = [] then '''' else last xs)"

section \<open>Heartbeat\<close>

definition Heartbeat :: "'s upcloudSvc \<Rightarrow> string \<Rightarrow> 's world \<Rightarrow> error option \<times> 's world" where
  "Heartbeat svc ident w =
     (let req = \<lparr>details_UUID = ident\<rparr>;
          (res, w1) = invoke (GetServerDetailsCall req) (GetServerDetails svc req) w
      in case res of
           Inl err \<Rightarrow>
             (None, log_msg LevelWarn ''heartbeat API error (treating as healthy)''
                      [(''uuid'', ident), (''error'', Error err)] w1)
         | Inr details \<Rightarrow>
             if State details = ServerStateError
             then (Some (New (''server '' @ ident @ '' is in error state'')), w1)
             else (None, w1))"

section \<open>Test doubles\<close>

text \<open>
  The fixtures of the repository's tests, used below to run the operations on concrete
  inputs: \<open>makeDetails\<close> and \<open>baseGroup\<close> as the tests define them, and one mock
  service that joins the behaviours the tests give to \<open>mockSvc\<close>. Its provider state
  counts the \<open>CreateServer\<close> calls, and every second one fails ("quota exceeded");
  stopping \<open>uuid-bad\<close> fails; the details of \<open>uuid-gone\<close> cannot be fetched, \<open>uuid-err\<close>
  is in the error state and \<open>uuid-v6\<close> has an IPv6 address only; listing the group
  \<open>broken-group\<close> fails.
\<close>

definition emptyDetails :: ServerDetails where
  "emptyDetails = \<lparr>UUID = '''', State = '''', IPAddresses = []\<rparr>"

definition makeDetails :: "string \<Rightarrow> string \<Rightarrow> ServerDetails" where
  "makeDetails publicIP privateIP =
     \<lparr>UUID = '''', State = '''',
      IPAddresses =
        (if publicIP \<noteq> '''' then
           [\<lparr>Access = IPAddressAccessPublic, Address = publicIP, Family = IPAddressFamilyIPv4\<rparr>]
         else []) @
        (if privateIP \<noteq> '''' then
           [\<lparr>Access = IPAddressAccessPrivate, Address = privateIP, Family = IPAddressFamilyIPv4\<rparr>]
         else [])\<rparr>"

definition mockSvc :: "nat upcloudSvc" where
  "mockSvc =
     \<lparr>GetServersWithFilters = (\<lambda>r calls.
        (if map label_Value (Filters r) = [''broken-group''] then Inl (New ''api error'')
         else Inr \<lparr>Servers = [\<lparr>UUID = ''uuid-1'', State = ServerStateStarted\<rparr>,
                               \<lparr>UUID = ''uuid-2'', State = ServerStateStopped\<rparr>]\<rparr>, calls)),
      CreateServer = (\<lambda>r calls.
        (if Suc calls mod 2 = 0 then Inl (New ''quota exceeded'') else Inr emptyDetails, Suc calls)),
      StopServer = (\<lambda>r calls.
        (if stop_UUID r = ''uuid-bad'' then Inl (New ''stop failed'') else Inr emptyDetails, calls)),
      WaitForServerState = (\<lambda>r calls. (Inr emptyDetails, calls)),
      DeleteServerAndStorages = (\<lambda>r calls. (None, calls)),
      GetServerDetails = (\<lambda>r calls.
        (if details_UUID r = ''uuid-gone'' then Inl (New ''not found'')
         else if details_UUID r = ''uuid-err'' then Inr (emptyDetails\<lparr>State := ServerStateError\<rparr>)
         else if details_UUID r = ''uuid-v6'' then
           Inr (emptyDetails\<lparr>IPAddresses :=
                  [\<lparr>Access = IPAddressAccessPublic, Address = ''2001:db8::1'', Family = ''IPv6''\<rparr>]\<rparr>)
         else Inr (makeDetails ''1.2.3.4'' ''10.0.0.5''), calls))\<rparr>"

definition world0 :: "nat world" where
  "world0 = \<lparr>prov = 0, trace = [], logs = [], rand_src = (\<lambda>k. k), rand_pos = 0\<rparr>"

definition baseGroup :: InstanceGroup where
  "baseGroup = zeroGroup\<lparr>Token := ''test-token'', Zone := ''fi-hel1'',
     Template := ''template-uuid'', Name := ''test-group'', Plan := defaultPlan\<rparr>"

text \<open>
  A server with a public address and two private ones, the second of them with an empty
  address string, and a service that returns it for every id.
\<close>

definition blankPrivateDetails :: ServerDetails where
  "blankPrivateDetails =
     \<lparr>UUID = '''', State = '''',
      IPAddresses =
        [\<lparr>Access = IPAddressAccessPublic, Address = ''1.2.3.4'', Family = IPAddressFamilyIPv4\<rparr>,
         \<lparr>Access = IPAddressAccessPrivate, Address = ''10.0.0.5'', Family = IPAddressFamilyIPv4\<rparr>,
         \<lparr>Access = IPAddressAccessPrivate, Address = '''', Family = IPAddressFamilyIPv4\<rparr>]\<rparr>"

definition blankPrivateSvc :: "nat upcloudSvc" where
  "blankPrivateSvc =
     mockSvc\<lparr>GetServerDetails := (\<lambda>r calls. (Inr blankPrivateDetails, calls))\<rparr>"

section \<open>Properties of the state mapper\<close>

text \<open>
  Claim C9. \<open>mapServerState\<close> is a function of its argument alone, defined on every
  string: it gives Running for "started", Deleted for "stopped" and for "error", and
  Creating for every other string, the empty string, "new" and "maintenance" among them.
\<close>

theorem mapServerState_table:
  "mapServerState ''started'' = StateRunning \<and>
   mapServerState ''stopped'' = StateDeleted \<and>
   mapServerState ''error'' = StateDeleted \<and>
   mapServerState '''' = StateCreating \<and>
   mapServerState ''new'' = StateCreating \<and>
   mapServerState ''maintenance'' = StateCreating \<and>
   (\<forall>s. mapServerState s =
      (if s = ''started'' then StateRunning
       else if s = ''stopped'' \<or> s = ''error'' then StateDeleted
       else StateCreating))"
  by (simp add: mapServerState_def ServerStateStarted_def ServerStateStopped_def
      ServerStateError_def)

section \<open>Properties of the validator\<close>

text \<open>
  Claim C7. \<open>validate\<close> accepts a configuration with a token alone, and one with a
  username and a password together (zone, template and name being set). It rejects a
  configuration with no token and a username or a password missing (so a username alone,
  a password alone, and no credentials at all), then an empty zone, then an empty
  template, then an empty name: the checks run in that order and the first failure is
  the error returned, whatever the later fields hold. On success plan, name prefix and
  maximal size get their defaults exactly where they were unset, explicit values stay,
  and storage size and tier are as they were. On an error the configuration is unchanged.
\<close>

theorem validate_cases:
  "(Token g \<noteq> '''' \<and> Username g = '''' \<and> Password g = '''' \<and>
      Zone g \<noteq> '''' \<and> Template g \<noteq> '''' \<and> Name g \<noteq> '''' \<longrightarrow> fst (validate g) = None) \<and>
   (Token g = '''' \<and> Username g \<noteq> '''' \<and> Password g \<noteq> '''' \<and>
      Zone g \<noteq> '''' \<and> Template g \<noteq> '''' \<and> Name g \<noteq> '''' \<longrightarrow> fst (validate g) = None) \<and>
   (Token g = '''' \<and> (Username g = '''' \<or> Password g = '''') \<longrightarrow>
      validate g =
        (Some (New ''either token or both username and password are required''), g)) \<and>
   ((Token g \<noteq> '''' \<or> (Username g \<noteq> '''' \<and> Password g \<noteq> '''')) \<and> Zone g = '''' \<longrightarrow>
      validate g = (Some (New ''zone is required''), g)) \<and>
   ((Token g \<noteq> '''' \<or> (Username g \<noteq> '''' \<and> Password g \<noteq> '''')) \<and> Zone g \<noteq> '''' \<and>
      Template g = '''' \<longrightarrow>
      validate g = (Some (New ''template is required''), g)) \<and>
   ((Token g \<noteq> '''' \<or> (Username g \<noteq> '''' \<and> Password g \<noteq> '''')) \<and> Zone g \<noteq> '''' \<and>
      Template g \<noteq> '''' \<and> Name g = '''' \<longrightarrow>
      validate g = (Some (New ''name is required''), g)) \<and>
   (fst (validate g) = None \<longrightarrow>
      snd (validate g) =
        g\<lparr>Plan := (if Plan g = '''' then ''1xCPU-2GB'' else Plan g),
          NamePrefix := (if NamePrefix g = '''' then ''fleeting'' else NamePrefix g),
          MaxSize := (if MaxSize g = 0 then 100 else MaxSize g)\<rparr> \<and>
      StorageSize (snd (validate g)) = StorageSize g \<and>
      StorageTier (snd (validate g)) = StorageTier g)"
  by (simp add: validate_def Let_def defaultPlan_def defaultNamePrefix_def defaultMaxSize_def)

theorem validate_cases_witness:
  "validate (zeroGroup\<lparr>Token := ''tok'', Zone := ''z'', Template := ''t'', Name := ''n''\<rparr>) =
     (None, zeroGroup\<lparr>Token := ''tok'', Zone := ''z'', Template := ''t'', Name := ''n'',
              Plan := ''1xCPU-2GB'', NamePrefix := ''fleeting'', MaxSize := 100\<rparr>) \<and>
   validate (zeroGroup\<lparr>Token := ''tok'', Zone := ''z'', Template := ''t'', Name := ''n'',
               Plan := ''2xCPU-4GB'', NamePrefix := ''ci'', MaxSize := 5, StorageSize := 50\<rparr>) =
     (None, zeroGroup\<lparr>Token := ''tok'', Zone := ''z'', Template := ''t'', Name := ''n'',
              Plan := ''2xCPU-4GB'', NamePrefix := ''ci'', MaxSize := 5, StorageSize := 50\<rparr>) \<and>
   fst (validate (zeroGroup\<lparr>Username := ''u'', Password := ''p'', Zone := ''z'',
                    Template := ''t'', Name := ''n''\<rparr>)) = None \<and>
   fst (validate (zeroGroup\<lparr>Zone := ''z'', Template := ''t'', Name := ''n''\<rparr>)) =
     Some (New ''either token or both username and password are required'') \<and>
   fst (validate (zeroGroup\<lparr>Username := ''u'', Zone := ''z'', Template := ''t'', Name := ''n''\<rparr>)) =
     Some (New ''either token or both username and password are required'') \<and>
   fst (validate (zeroGroup\<lparr>Password := ''p'', Zone := ''z'', Template := ''t'', Name := ''n''\<rparr>)) =
     Some (New ''either token or both username and password are required'') \<and>
   fst (validate (zeroGroup\<lparr>Token := ''tok''\<rparr>)) = Some (New ''zone is required'') \<and>
   fst (validate (zeroGroup\<lparr>Token := ''tok'', Zone := ''z''\<rparr>)) =
     Some (New ''template is required'') \<and>
   fst (validate (zeroGroup\<lparr>Token := ''tok'', Zone := ''z'', Template := ''t''\<rparr>)) =
     Some (New ''name is required'')"
proof -
  let ?tok = "zeroGroup\<lparr>Token := ''tok'', Zone := ''z'', Template := ''t'', Name := ''n''\<rparr>"
  let ?explicit = "zeroGroup\<lparr>Token := ''tok'', Zone := ''z'', Template := ''t'', Name := ''n'',
      Plan := ''2xCPU-4GB'', NamePrefix := ''ci'', MaxSize := 5, StorageSize := 50\<rparr>"
  have 1: "validate ?tok = (None, ?tok\<lparr>Plan := ''1xCPU-2GB'', NamePrefix := ''fleeting'',
      MaxSize := 100\<rparr>)"
    using validate_cases [of ?tok] by (simp add: zeroGroup_def prod_eq_iff)
  have 2: "validate ?explicit = (None, ?explicit)"
    using validate_cases [of ?explicit] by (simp add: zeroGroup_def prod_eq_iff)
  have 3: "fst (validate (zeroGroup\<lparr>Username := ''u'', Password := ''p'', Zone := ''z'',
      Template := ''t'', Name := ''n''\<rparr>)) = None"
    using validate_cases [of "zeroGroup\<lparr>Username := ''u'', Password := ''p'', Zone := ''z'',
      Template := ''t'', Name := ''n''\<rparr>"] by (simp add: zeroGroup_def)
  have 4: "fst (validate (zeroGroup\<lparr>Zone := ''z'', Template := ''t'', Name := ''n''\<rparr>)) =
      Some (New ''either token or both username and password are required'')"
    using validate_cases [of "zeroGroup\<lparr>Zone := ''z'', Template := ''t'', Name := ''n''\<rparr>"]
    by (simp add: zeroGroup_def)
  have 5: "fst (validate (zeroGroup\<lparr>Username := ''u'', Zone := ''z'', Template := ''t'',
      Name := ''n''\<rparr>)) = Some (New ''either token or both username and password are required'')"
    using validate_cases [of "zeroGroup\<lparr>Username := ''u'', Zone := ''z'', Template := ''t'',
      Name := ''n''\<rparr>"] by (simp add: zeroGroup_def)
  have 6: "fst (validate (zeroGroup\<lparr>Password := ''p'', Zone := ''z'', Template := ''t'',
      Name := ''n''\<rparr>)) = Some (New ''either token or both username and password are required'')"
    using validate_cases [of "zeroGroup\<lparr>Password := ''p'', Zone := ''z'', Template := ''t'',
      Name := ''n''\<rparr>"] by (simp add: zeroGroup_def)
  have 7: "fst (validate (zeroGroup\<lparr>Token := ''tok''\<rparr>)) = Some (New ''zone is required'')"
    using validate_cases [of "zeroGroup\<lparr>Token := ''tok''\<rparr>"] by (simp add: zeroGroup_def)
  have 8: "fst (validate (zeroGroup\<lparr>Token := ''tok'', Zone := ''z''\<rparr>)) =
      Some (New ''template is required'')"
    using validate_cases [of "zeroGroup\<lparr>Token := ''tok'', Zone := ''z''\<rparr>"]
    by (simp add: zeroGroup_def)
  have 9: "fst (validate (zeroGroup\<lparr>Token := ''tok'', Zone := ''z'', Template := ''t''\<rparr>)) =
      Some (New ''name is required'')"
    using validate_cases [of "zeroGroup\<lparr>Token := ''tok'', Zone := ''z'', Template := ''t''\<rparr>"]
    by (simp add: zeroGroup_def)
  from 1 2 3 4 5 6 7 8 9 show ?thesis by simp
qed

text \<open>
  Claim C6. After a successful \<open>validate\<close>, plan, name prefix and maximal size are set,
  and exactly one authentication mode is set: a token, or a username with a password, not
  both. The comments of the struct say the same of its fields ("set either Token OR
  Username+Password", username and password "mutually exclusive with Token"). The code
  does not hold it: \<open>validate\<close> has no check for it, and on the configuration that sets
  the token, the username and the password it returns nil and leaves both modes set.
\<close>

theorem validate_accepts_both_modes:
  "fst (validate (zeroGroup\<lparr>Token := ''tok'', Username := ''u'', Password := ''p'',
                    Zone := ''z'', Template := ''t'', Name := ''n''\<rparr>)) = None \<and>
   token_mode
     (snd (validate (zeroGroup\<lparr>Token := ''tok'', Username := ''u'', Password := ''p'',
                       Zone := ''z'', Template := ''t'', Name := ''n''\<rparr>))) \<and>
   userpass_mode
     (snd (validate (zeroGroup\<lparr>Token := ''tok'', Username := ''u'', Password := ''p'',
                       Zone := ''z'', Template := ''t'', Name := ''n''\<rparr>))) \<and>
   \<not> exactly_one_mode
        (snd (validate (zeroGroup\<lparr>Token := ''tok'', Username := ''u'', Password := ''p'',
                          Zone := ''z'', Template := ''t'', Name := ''n''\<rparr>)))"
  by (simp add: validate_def zeroGroup_def exactly_one_mode_def token_mode_def
      userpass_mode_def Let_def)

text \<open>The part of the invariant that the code does hold: the three defaults.\<close>

lemma validate_sets_defaults:
  "fst (validate g) = None \<Longrightarrow>
     Plan (snd (validate g)) \<noteq> '''' \<and> NamePrefix (snd (validate g)) \<noteq> '''' \<and>
     MaxSize (snd (validate g)) \<noteq> 0"
  by (auto simp add: validate_def Let_def defaultPlan_def defaultNamePrefix_def
      defaultMaxSize_def split: if_splits)

text \<open>
  What the client does with a validated configuration: it authenticates in one way, with
  the token when there is one, whatever the username and the password hold, and with a
  username and a password that are both set otherwise.
\<close>

lemma newClient_after_validate:
  "fst (validate g) = None \<Longrightarrow>
     (Token g \<noteq> '''' \<and> bearer_token (newClient (snd (validate g))) = Some (Token g) \<and>
        client_username (newClient (snd (validate g))) = '''' \<and>
        client_password (newClient (snd (validate g))) = '''') \<or>
     (Token g = '''' \<and> bearer_token (newClient (snd (validate g))) = None \<and>
        client_username (newClient (snd (validate g))) = Username g \<and> Username g \<noteq> '''' \<and>
        client_password (newClient (snd (validate g))) = Password g \<and> Password g \<noteq> '''')"
  by (auto simp add: validate_def newClient_def Let_def split: if_splits)

section \<open>Properties of Update\<close>

lemma Update_loop_foldl:
  "Update_loop fn servers ob =
     foldl (\<lambda>acc s. fn (UUID s) (mapServerState (State s)) acc) ob servers"
  by (induction servers arbitrary: ob) simp_all

lemma Update_loop_record:
  "Update_loop record_call servers seen =
     seen @ map (\<lambda>s. (UUID s, mapServerState (State s))) servers"
  by (induction servers arbitrary: seen) (simp_all add: record_call_def)

lemma errors_Is_self: "errors_Is e e"
  by (cases e) simp_all

lemma Update_by_listing:
  fixes cb :: "string \<Rightarrow> State \<Rightarrow> 'c \<Rightarrow> 'c"
  assumes "GetServersWithFilters svc
      \<lparr>Filters = [\<lparr>label_Key = ''fleeting-group'', label_Value = Name g\<rparr>]\<rparr> (prov w) = (res, p)"
  shows "fst (Update svc g cb w acc) =
      (case res of Inl err \<Rightarrow> Some (Errorf_w ''listing group servers: '' err) | Inr servers \<Rightarrow> None)"
    and "snd (snd (Update svc g cb w acc)) =
      (case res of Inl err \<Rightarrow> acc | Inr servers \<Rightarrow> Update_loop cb (Servers servers) acc)"
  using assms by (cases res; simp add: Update_def invoke_def Let_def groupLabelKey_def)+

text \<open>
  Claim C4. When the listing of the group's servers succeeds, \<open>Update\<close> returns nil and
  has invoked the callback once per listed server, in the order of the listing, with
  the server's id and its mapped state: the observer is left as by applying the callback
  along the list, and a callback that records its invocations has recorded exactly the
  list of pairs (so nothing for an empty listing). When the listing fails, \<open>Update\<close>
  returns that error, wrapped with the prefix "listing group servers: " (\<open>errors.Is\<close>
  and \<open>Unwrap\<close> find it), and the callback was not invoked.
\<close>

theorem Update_result:
  "(GetServersWithFilters svc
        \<lparr>Filters = [\<lparr>label_Key = ''fleeting-group'', label_Value = Name g\<rparr>]\<rparr> (prov w) =
      (Inr servers, p) \<longrightarrow>
      fst (Update svc g fn w ob) = None \<and>
      snd (snd (Update svc g fn w ob)) =
        foldl (\<lambda>acc s. fn (UUID s) (mapServerState (State s)) acc) ob (Servers servers) \<and>
      snd (snd (Update svc g record_call w [])) =
        map (\<lambda>s. (UUID s, mapServerState (State s))) (Servers servers)) \<and>
   (GetServersWithFilters svc
        \<lparr>Filters = [\<lparr>label_Key = ''fleeting-group'', label_Value = Name g\<rparr>]\<rparr> (prov w) =
      (Inl err, p) \<longrightarrow>
      fst (Update svc g fn w ob) = Some (Wrapped (''listing group servers: '' @ Error err) err) \<and>
      (\<exists>e. fst (Update svc g fn w ob) = Some e \<and> errors_Is e err \<and> Unwrap e = Some err) \<and>
      snd (snd (Update svc g fn w ob)) = ob \<and>
      snd (snd (Update svc g record_call w [])) = [])"
proof (intro conjI impI)
  assume ok: "GetServersWithFilters svc
      \<lparr>Filters = [\<lparr>label_Key = ''fleeting-group'', label_Value = Name g\<rparr>]\<rparr> (prov w) =
    (Inr servers, p)"
  show "fst (Update svc g fn w ob) = None"
    using Update_by_listing(1) [OF ok, of fn ob] by simp
  show "snd (snd (Update svc g fn w ob)) =
      foldl (\<lambda>acc s. fn (UUID s) (mapServerState (State s)) acc) ob (Servers servers)"
    using Update_by_listing(2) [OF ok, of fn ob] by (simp add: Update_loop_foldl)
  show "snd (snd (Update svc g record_call w [])) =
      map (\<lambda>s. (UUID s, mapServerState (State s))) (Servers servers)"
    using Update_by_listing(2) [OF ok, of record_call "[]"] by (simp add: Update_loop_record)
next
  assume bad: "GetServersWithFilters svc
      \<lparr>Filters = [\<lparr>label_Key = ''fleeting-group'', label_Value = Name g\<rparr>]\<rparr> (prov w) =
    (Inl err, p)"
  show wrapped: "fst (Update svc g fn w ob) =
      Some (Wrapped (''listing group servers: '' @ Error err) err)"
    using Update_by_listing(1) [OF bad, of fn ob] by (simp add: Errorf_w_def)
  show "\<exists>e. fst (Update svc g fn w ob) = Some e \<and> errors_Is e err \<and> Unwrap e = Some err"
    using wrapped by (simp add: errors_Is_self)
  show "snd (snd (Update svc g fn w ob)) = ob"
    using Update_by_listing(2) [OF bad, of fn ob] by simp
  show "snd (snd (Update svc g record_call w [])) = []"
    using Update_by_listing(2) [OF bad, of record_call "[]"] by simp
qed

theorem Update_result_witness:
  "fst (Update mockSvc baseGroup record_call world0 []) = None \<and>
   snd (snd (Update mockSvc baseGroup record_call world0 [])) =
     [(''uuid-1'', StateRunning), (''uuid-2'', StateDeleted)] \<and>
   fst (Update mockSvc (baseGroup\<lparr>Name := ''broken-group''\<rparr>) record_call world0 []) =
     Some (Wrapped ''listing group servers: api error'' (New ''api error'')) \<and>
   snd (snd (Update mockSvc (baseGroup\<lparr>Name := ''broken-group''\<rparr>) record_call world0 [])) = []"
proof -
  let ?listing = "\<lparr>Servers = [\<lparr>UUID = ''uuid-1'', State = ServerStateStarted\<rparr>,
      \<lparr>UUID = ''uuid-2'', State = ServerStateStopped\<rparr>]\<rparr>"
  have ok: "GetServersWithFilters mockSvc
      \<lparr>Filters = [\<lparr>label_Key = ''fleeting-group'', label_Value = Name baseGroup\<rparr>]\<rparr>
      (prov world0) = (Inr ?listing, 0)"
    by (simp add: mockSvc_def baseGroup_def zeroGroup_def world0_def)
  have bad: "GetServersWithFilters mockSvc
      \<lparr>Filters = [\<lparr>label_Key = ''fleeting-group'',
                    label_Value = Name (baseGroup\<lparr>Name := ''broken-group''\<rparr>)\<rparr>]\<rparr>
      (prov world0) = (Inl (New ''api error''), 0)"
    by (simp add: mockSvc_def world0_def)
  have states: "map (\<lambda>s. (UUID s, mapServerState (State s))) (Servers ?listing) =
      [(''uuid-1'', StateRunning), (''uuid-2'', StateDeleted)]"
    by (simp add: mapServerState_def ServerStateStarted_def ServerStateStopped_def)
  show ?thesis
    using Update_result [of mockSvc baseGroup world0 ?listing 0 record_call "[]"
        "New ''api error''"]
      Update_result [of mockSvc "baseGroup\<lparr>Name := ''broken-group''\<rparr>" world0 ?listing 0
        record_call "[]" "New ''api error''"]
      ok bad states
    by (simp add: record_call_def)
qed

section \<open>Properties of ConnectInfo\<close>

lemma scan_addresses_Internal:
  "InternalAddr (scan_addresses ips info) =
     (if ipv4_of IPAddressAccessPrivate ips = [] then InternalAddr info
      else last (ipv4_of IPAddressAccessPrivate ips))"
  by (induction ips arbitrary: info)
    (simp_all add: ipv4_of_def IPAddressAccessPrivate_def IPAddressAccessPublic_def)

lemma scan_addresses_External:
  "ExternalAddr (scan_addresses ips info) =
     (if ipv4_of IPAddressAccessPublic ips = [] then ExternalAddr info
      else last (ipv4_of IPAddressAccessPublic ips))"
  by (induction ips arbitrary: info)
    (simp_all add: ipv4_of_def IPAddressAccessPrivate_def IPAddressAccessPublic_def)

lemma scan_addresses_filter:
  "scan_addresses (filter (\<lambda>ip. Family ip = IPAddressFamilyIPv4) ips) info =
     scan_addresses ips info"
  by (induction ips arbitrary: info) simp_all

lemma ConnectInfo_ok:
  assumes "GetServerDetails svc \<lparr>details_UUID = ident\<rparr> (prov w) = (Inr details, p)"
  shows "snd (fst (ConnectInfo svc g ident w)) = None"
    and "InternalAddr (fst (fst (ConnectInfo svc g ident w))) =
           last_or_empty (ipv4_of IPAddressAccessPrivate (IPAddresses details))"
    and "ExternalAddr (fst (fst (ConnectInfo svc g ident w))) =
           (if UsePrivateNetwork g \<and>
               last_or_empty (ipv4_of IPAddressAccessPrivate (IPAddresses details)) \<noteq> ''''
            then last_or_empty (ipv4_of IPAddressAccessPrivate (IPAddresses details))
            else last_or_empty (ipv4_of IPAddressAccessPublic (IPAddresses details)))"
  using assms
  by (simp_all add: ConnectInfo_def invoke_def Let_def scan_addresses_Internal
      scan_addresses_External last_or_empty_def)

text \<open>
  Claim C8, as stated: when the fetch of the server's details succeeds, the external
  address is set from the public IPv4 addresses and the internal one from the private
  IPv4 addresses, the last of each kind winning; and if the private network is to be
  used and a private IPv4 address was found, the external address returned is that
  private address. The last part fails where the last private IPv4 entry has an empty
  address: the list holds the private address 10.0.0.5, the scan keeps the empty string
  of the entry after it, the guard of the override reads the internal address as not
  found, and the external address stays the public one.
\<close>

theorem ConnectInfo_blank_private_counterexample:
  "UsePrivateNetwork (baseGroup\<lparr>UsePrivateNetwork := True\<rparr>) \<and>
   snd (fst (ConnectInfo blankPrivateSvc (baseGroup\<lparr>UsePrivateNetwork := True\<rparr>)
               ''uuid-1'' world0)) = None \<and>
   ipv4_of ''private'' (IPAddresses blankPrivateDetails) = [''10.0.0.5'', ''''] \<and>
   InternalAddr (fst (fst (ConnectInfo blankPrivateSvc (baseGroup\<lparr>UsePrivateNetwork := True\<rparr>)
                             ''uuid-1'' world0))) = '''' \<and>
   ExternalAddr (fst (fst (ConnectInfo blankPrivateSvc (baseGroup\<lparr>UsePrivateNetwork := True\<rparr>)
                             ''uuid-1'' world0))) = ''1.2.3.4''"
proof -
  have fetch: "GetServerDetails blankPrivateSvc \<lparr>details_UUID = ''uuid-1''\<rparr> (prov world0) =
      (Inr blankPrivateDetails, 0)"
    by (simp add: blankPrivateSvc_def world0_def)
  have priv: "ipv4_of IPAddressAccessPrivate (IPAddresses blankPrivateDetails) =
      [''10.0.0.5'', '''']"
    and pub: "ipv4_of IPAddressAccessPublic (IPAddresses blankPrivateDetails) = [''1.2.3.4'']"
    by (simp_all add: blankPrivateDetails_def ipv4_of_def IPAddressAccessPrivate_def
        IPAddressAccessPublic_def)
  have flag: "UsePrivateNetwork (baseGroup\<lparr>UsePrivateNetwork := True\<rparr>)"
    by simp
  have "ipv4_of ''private'' (IPAddresses blankPrivateDetails) = [''10.0.0.5'', '''']"
    using priv by (simp add: IPAddressAccessPrivate_def)
  then show ?thesis
    using ConnectInfo_ok [OF fetch, of "baseGroup\<lparr>UsePrivateNetwork := True\<rparr>"] flag
    by (simp add: priv pub last_or_empty_def)
qed

text \<open>
  Claim C8, amended: when the fetch of the server's details succeeds, \<open>ConnectInfo\<close>
  returns no error; the internal address is the last private IPv4 address of the list
  (empty when there is none); the external address is the last public IPv4 address
  (empty when there is none), unless the private network is to be used and the internal
  address is not empty; and when the private network is to be used and the last private
  IPv4 address, the one the scan keeps, is not the empty string, the external address is
  that private address.
\<close>

theorem ConnectInfo_addresses:
  "GetServerDetails svc \<lparr>details_UUID = ident\<rparr> (prov w) = (Inr details, p) \<Longrightarrow>
     snd (fst (ConnectInfo svc g ident w)) = None \<and>
     InternalAddr (fst (fst (ConnectInfo svc g ident w))) =
       last_or_empty (ipv4_of ''private'' (IPAddresses details)) \<and>
     (\<not> (UsePrivateNetwork g \<and> InternalAddr (fst (fst (ConnectInfo svc g ident w))) \<noteq> '''') \<longrightarrow>
        ExternalAddr (fst (fst (ConnectInfo svc g ident w))) =
          last_or_empty (ipv4_of ''public'' (IPAddresses details))) \<and>
     (UsePrivateNetwork g \<and> ipv4_of ''private'' (IPAddresses details) \<noteq> [] \<and>
        last (ipv4_of ''private'' (IPAddresses details)) \<noteq> '''' \<longrightarrow>
        ExternalAddr (fst (fst (ConnectInfo svc g ident w))) =
          last (ipv4_of ''private'' (IPAddresses details)))"
  using ConnectInfo_ok [of svc ident w details p g]
  by (simp add: IPAddressAccessPrivate_def IPAddressAccessPublic_def last_or_empty_def)

theorem ConnectInfo_addresses_witness:
  "snd (fst (ConnectInfo mockSvc (baseGroup\<lparr>UsePrivateNetwork := True\<rparr>) ''uuid-1'' world0)) =
     None \<and>
   InternalAddr (fst (fst (ConnectInfo mockSvc (baseGroup\<lparr>UsePrivateNetwork := True\<rparr>)
                             ''uuid-1'' world0))) = ''10.0.0.5'' \<and>
   ExternalAddr (fst (fst (ConnectInfo mockSvc (baseGroup\<lparr>UsePrivateNetwork := True\<rparr>)
                             ''uuid-1'' world0))) = ''10.0.0.5'' \<and>
   InternalAddr (fst (fst (ConnectInfo mockSvc baseGroup ''uuid-1'' world0))) = ''10.0.0.5'' \<and>
   ExternalAddr (fst (fst (ConnectInfo mockSvc baseGroup ''uuid-1'' world0))) = ''1.2.3.4''"
proof -
  let ?d = "makeDetails ''1.2.3.4'' ''10.0.0.5''"
  have fetch: "GetServerDetails mockSvc \<lparr>details_UUID = ''uuid-1''\<rparr> (prov world0) = (Inr ?d, 0)"
    by (simp add: mockSvc_def world0_def)
  have priv: "ipv4_of ''private'' (IPAddresses ?d) = [''10.0.0.5'']"
    and pub: "ipv4_of ''public'' (IPAddresses ?d) = [''1.2.3.4'']"
    by (simp_all add: makeDetails_def ipv4_of_def IPAddressAccessPrivate_def
        IPAddressAccessPublic_def IPAddressFamilyIPv4_def)
  have flags: "UsePrivateNetwork (baseGroup\<lparr>UsePrivateNetwork := True\<rparr>)"
    "\<not> UsePrivateNetwork baseGroup"
    by (simp_all add: baseGroup_def zeroGroup_def)
  show ?thesis
    using ConnectInfo_addresses [OF fetch, of "baseGroup\<lparr>UsePrivateNetwork := True\<rparr>"]
      ConnectInfo_addresses [OF fetch, of baseGroup] flags
    by (simp add: priv pub last_or_empty_def)
qed

text \<open>
  Claim C10. When the details are fetched and the address list has no IPv4 entry,
  \<open>ConnectInfo\<close> returns no error and leaves the external and the internal address
  empty. And addresses of other families never influence what is returned: two fetched
  results whose IPv4 entries are the same, in the same order, give the same connection
  info and the same error.
\<close>

theorem ConnectInfo_ipv4_only:
  "(GetServerDetails svc \<lparr>details_UUID = ident\<rparr> (prov w) = (Inr details, p) \<and>
      (\<forall>ip \<in> set (IPAddresses details). Family ip \<noteq> ''IPv4'') \<longrightarrow>
      snd (fst (ConnectInfo svc g ident w)) = None \<and>
      ExternalAddr (fst (fst (ConnectInfo svc g ident w))) = '''' \<and>
      InternalAddr (fst (fst (ConnectInfo svc g ident w))) = '''') \<and>
   (GetServerDetails svc \<lparr>details_UUID = ident\<rparr> (prov w) = (Inr details, p) \<and>
      GetServerDetails svc' \<lparr>details_UUID = ident\<rparr> (prov w') = (Inr details', p') \<and>
      filter (\<lambda>ip. Family ip = ''IPv4'') (IPAddresses details) =
        filter (\<lambda>ip. Family ip = ''IPv4'') (IPAddresses details') \<longrightarrow>
      fst (ConnectInfo svc g ident w) = fst (ConnectInfo svc' g ident w'))"
proof (intro conjI impI)
  assume a: "GetServerDetails svc \<lparr>details_UUID = ident\<rparr> (prov w) = (Inr details, p) \<and>
      (\<forall>ip \<in> set (IPAddresses details). Family ip \<noteq> ''IPv4'')"
  then have none: "ipv4_of acc (IPAddresses details) = []" for acc
    by (simp add: ipv4_of_def IPAddressFamilyIPv4_def filter_empty_conv)
  from a have f: "GetServerDetails svc \<lparr>details_UUID = ident\<rparr> (prov w) = (Inr details, p)"
    by simp
  show "snd (fst (ConnectInfo svc g ident w)) = None"
    using ConnectInfo_ok(1) [OF f] .
  show "ExternalAddr (fst (fst (ConnectInfo svc g ident w))) = ''''"
    using ConnectInfo_ok(3) [OF f, of g] by (simp add: none last_or_empty_def)
  show "InternalAddr (fst (fst (ConnectInfo svc g ident w))) = ''''"
    using ConnectInfo_ok(2) [OF f, of g] by (simp add: none last_or_empty_def)
next
  assume a: "GetServerDetails svc \<lparr>details_UUID = ident\<rparr> (prov w) = (Inr details, p) \<and>
      GetServerDetails svc' \<lparr>details_UUID = ident\<rparr> (prov w') = (Inr details', p') \<and>
      filter (\<lambda>ip. Family ip = ''IPv4'') (IPAddresses details) =
        filter (\<lambda>ip. Family ip = ''IPv4'') (IPAddresses details')"
  then have "scan_addresses (IPAddresses details) info =
      scan_addresses (IPAddresses details') info" for info
    using scan_addresses_filter [of "IPAddresses details" info]
      scan_addresses_filter [of "IPAddresses details'" info]
    by (simp add: IPAddressFamilyIPv4_def)
  with a show "fst (ConnectInfo svc g ident w) = fst (ConnectInfo svc' g ident w')"
    by (simp add: ConnectInfo_def invoke_def Let_def)
qed

theorem ConnectInfo_ipv4_only_witness:
  "snd (fst (ConnectInfo mockSvc baseGroup ''uuid-v6'' world0)) = None \<and>
   ExternalAddr (fst (fst (ConnectInfo mockSvc baseGroup ''uuid-v6'' world0))) = '''' \<and>
   InternalAddr (fst (fst (ConnectInfo mockSvc baseGroup ''uuid-v6'' world0))) = '''' \<and>
   fst (ConnectInfo mockSvc baseGroup ''uuid-v6'' world0) =
     fst (ConnectInfo (mockSvc\<lparr>GetServerDetails := (\<lambda>r calls. (Inr emptyDetails, calls))\<rparr>)
            baseGroup ''uuid-v6'' world0)"
proof -
  let ?v6 = "emptyDetails\<lparr>IPAddresses :=
      [\<lparr>Access = IPAddressAccessPublic, Address = ''2001:db8::1'', Family = ''IPv6''\<rparr>]\<rparr>"
  let ?svc' = "mockSvc\<lparr>GetServerDetails := (\<lambda>r calls. (Inr emptyDetails, calls))\<rparr>"
  have d: "GetServerDetails mockSvc \<lparr>details_UUID = ''uuid-v6''\<rparr> (prov world0) = (Inr ?v6, 0)"
    by (simp add: mockSvc_def world0_def)
  have d': "GetServerDetails ?svc' \<lparr>details_UUID = ''uuid-v6''\<rparr> (prov world0) =
      (Inr emptyDetails, 0)"
    by (simp add: world0_def)
  have no4: "\<forall>ip \<in> set (IPAddresses ?v6). Family ip \<noteq> ''IPv4''"
    by simp
  have same: "filter (\<lambda>ip. Family ip = ''IPv4'') (IPAddresses ?v6) =
      filter (\<lambda>ip. Family ip = ''IPv4'') (IPAddresses emptyDetails)"
    by (simp add: emptyDetails_def)
  show ?thesis
    using ConnectInfo_ipv4_only [of mockSvc "''uuid-v6''" world0 ?v6 0 baseGroup ?svc' world0
        emptyDetails 0] d d' no4 same
    by blast
qed

section \<open>Properties of Heartbeat\<close>

text \<open>
  Claim C5. \<open>Heartbeat\<close> returns nil whenever the fetch of the server's details fails;
  when the fetch succeeds it returns the error "server <id> is in error state" if the
  reported state is the provider's error state, and nil for every other state. So it
  returns an error exactly when the fetch succeeds and reports the error state.
\<close>

theorem Heartbeat_result:
  "(GetServerDetails svc \<lparr>details_UUID = ident\<rparr> (prov w) = (Inl err, p) \<longrightarrow>
      fst (Heartbeat svc ident w) = None) \<and>
   (GetServerDetails svc \<lparr>details_UUID = ident\<rparr> (prov w) = (Inr details, p) \<longrightarrow>
      fst (Heartbeat svc ident w) =
        (if State details = ''error''
         then Some (New (''server '' @ ident @ '' is in error state'')) else None)) \<and>
   (fst (Heartbeat svc ident w) \<noteq> None \<longleftrightarrow>
      (\<exists>d q. GetServerDetails svc \<lparr>details_UUID = ident\<rparr> (prov w) = (Inr d, q) \<and>
         State d = ''error''))"
proof -
  obtain res q where f: "GetServerDetails svc \<lparr>details_UUID = ident\<rparr> (prov w) = (res, q)"
    by (cases "GetServerDetails svc \<lparr>details_UUID = ident\<rparr> (prov w)")
  show ?thesis
    by (cases res) (simp_all add: f Heartbeat_def invoke_def Let_def ServerStateError_def)
qed

theorem Heartbeat_result_witness:
  "fst (Heartbeat mockSvc ''uuid-gone'' world0) = None \<and>
   fst (Heartbeat mockSvc ''uuid-err'' world0) =
     Some (New ''server uuid-err is in error state'') \<and>
   fst (Heartbeat mockSvc ''uuid-1'' world0) = None"
proof -
  have gone: "GetServerDetails mockSvc \<lparr>details_UUID = ''uuid-gone''\<rparr> (prov world0) =
      (Inl (New ''not found''), 0)"
    and bad: "GetServerDetails mockSvc \<lparr>details_UUID = ''uuid-err''\<rparr> (prov world0) =
      (Inr (emptyDetails\<lparr>State := ServerStateError\<rparr>), 0)"
    and good: "GetServerDetails mockSvc \<lparr>details_UUID = ''uuid-1''\<rparr> (prov world0) =
      (Inr (makeDetails ''1.2.3.4'' ''10.0.0.5''), 0)"
    by (simp_all add: mockSvc_def world0_def)
  have states: "State (emptyDetails\<lparr>State := ServerStateError\<rparr>) = ''error''"
    "State (makeDetails ''1.2.3.4'' ''10.0.0.5'') \<noteq> ''error''"
    by (simp_all add: ServerStateError_def makeDetails_def)
  show ?thesis
    using Heartbeat_result [of mockSvc "''uuid-gone''" world0 "New ''not found''" 0
        "makeDetails ''1.2.3.4'' ''10.0.0.5''"]
      Heartbeat_result [of mockSvc "''uuid-err''" world0 "New ''not found''" 0
        "emptyDetails\<lparr>State := ServerStateError\<rparr>"]
      Heartbeat_result [of mockSvc "''uuid-1''" world0 "New ''not found''" 0
        "makeDetails ''1.2.3.4'' ''10.0.0.5''"]
      gone bad good states
    by simp
qed

section \<open>Properties of Increase\<close>

declare Increase_loop.simps [simp del]

lemma randomSuffix_trace:
  "trace (snd (randomSuffix n w)) = trace w \<and> prov (snd (randomSuffix n w)) = prov w"
  by (induction n arbitrary: w) (simp_all add: Intn_def case_prod_beta Let_def)

lemma randomSuffix_length: "length (fst (randomSuffix n w)) = n"
  by (induction n arbitrary: w) (simp_all add: case_prod_beta Let_def)

lemma randomSuffix_chars: "set (fst (randomSuffix n w)) \<subseteq> set chars"
proof (induction n arbitrary: w)
  case 0
  then show ?case by simp
next
  case (Suc n)
  have "fst (Intn (length chars) w) < length chars"
    by (simp add: Intn_def chars_def)
  then have "chars ! fst (Intn (length chars) w) \<in> set chars"
    by (rule nth_mem)
  with Suc.IH [of "snd (Intn (length chars) w)"] show ?case
    by (simp add: case_prod_beta Let_def)
qed

lemma Increase_attempt_trace:
  "\<exists>r e. trace (snd (Increase_attempt svc g w)) = trace w @ [(CreateServerCall r, e)] \<and>
     (fst (Increase_attempt svc g w) \<longleftrightarrow> e = None)"
  by (simp add: Increase_attempt_def invoke_def log_msg_def case_prod_beta Let_def
      randomSuffix_trace result_err_def split: sum.split)

text \<open>
  The loop from any counter value: it adds one \<open>CreateServer\<close> call per remaining pass,
  and counts the calls among them that returned no error.
\<close>

lemma Increase_loop_trace:
  "\<exists>evs. trace (snd (Increase_loop svc g n i s w)) = trace w @ evs \<and>
     length evs = nat (n - i) \<and> list_all is_CreateServer evs \<and>
     fst (Increase_loop svc g n i s w) = s + int (length (filter (\<lambda>ev. snd ev = None) evs))"
proof (induction svc g n i s w rule: Increase_loop.induct)
  case (1 svc g n i succeeded w)
  show ?case
  proof (cases "i < n")
    case False
    then show ?thesis by (simp add: Increase_loop.simps [of svc g n i succeeded w])
  next
    case True
    obtain r e
      where att: "trace (snd (Increase_attempt svc g w)) = trace w @ [(CreateServerCall r, e)]"
        and ok: "fst (Increase_attempt svc g w) \<longleftrightarrow> e = None"
      using Increase_attempt_trace [of svc g w] by blast
    from "1.IH" [OF True] obtain evs where
      tr: "trace (snd (Increase_loop svc g n (i + 1)
              (if fst (Increase_attempt svc g w) then succeeded + 1 else succeeded)
              (snd (Increase_attempt svc g w)))) = trace (snd (Increase_attempt svc g w)) @ evs"
      and len: "length evs = nat (n - (i + 1))"
      and all: "list_all is_CreateServer evs"
      and cnt: "fst (Increase_loop svc g n (i + 1)
              (if fst (Increase_attempt svc g w) then succeeded + 1 else succeeded)
              (snd (Increase_attempt svc g w))) =
            (if fst (Increase_attempt svc g w) then succeeded + 1 else succeeded) +
              int (length (filter (\<lambda>ev. snd ev = None) evs))"
      by blast
    let ?evs = "(CreateServerCall r, e) # evs"
    have "trace (snd (Increase_loop svc g n i succeeded w)) = trace w @ ?evs"
      using True tr att by (simp add: Increase_loop.simps [of svc g n i succeeded w])
    moreover have "length ?evs = nat (n - i)"
      using True len by simp
    moreover have "list_all is_CreateServer ?evs"
      using all by (simp add: is_CreateServer_def)
    moreover have "fst (Increase_loop svc g n i succeeded w) =
        succeeded + int (length (filter (\<lambda>ev. snd ev = None) ?evs))"
      using True cnt ok by (simp add: Increase_loop.simps [of svc g n i succeeded w])
    ultimately show ?thesis by blast
  qed
qed

text \<open>
  Claim C1. For every \<open>n\<close> and every provider, \<open>Increase\<close> returns a nil error; the calls
  it adds to the trace are \<open>n\<close> calls of \<open>CreateServer\<close> (none for a negative \<open>n\<close>), one
  after the other, each made in the world the one before has left; the count it returns
  is the number of those calls that returned no error; and \<open>Increase(0)\<close> returns
  \<open>(0, nil)\<close> and leaves the world as it was, without any provider call.
\<close>

theorem Increase_counts:
  "snd (fst (Increase svc g n w)) = None \<and>
   trace (snd (Increase svc g n w)) = trace w @ new_calls w (snd (Increase svc g n w)) \<and>
   length (new_calls w (snd (Increase svc g n w))) = nat n \<and>
   list_all is_CreateServer (new_calls w (snd (Increase svc g n w))) \<and>
   fst (fst (Increase svc g n w)) =
     int (length (filter (\<lambda>ev. snd ev = None) (new_calls w (snd (Increase svc g n w))))) \<and>
   Increase svc g 0 w = ((0, None), w)"
proof -
  obtain evs where tr: "trace (snd (Increase_loop svc g n 0 0 w)) = trace w @ evs"
    and len: "length evs = nat n" and all: "list_all is_CreateServer evs"
    and cnt: "fst (Increase_loop svc g n 0 0 w) = int (length (filter (\<lambda>ev. snd ev = None) evs))"
    using Increase_loop_trace [of svc g n 0 0 w] by auto
  have w': "snd (Increase svc g n w) = snd (Increase_loop svc g n 0 0 w)"
    and c: "fst (fst (Increase svc g n w)) = fst (Increase_loop svc g n 0 0 w)"
    and e: "snd (fst (Increase svc g n w)) = None"
    by (simp_all add: Increase_def case_prod_beta)
  have new: "new_calls w (snd (Increase_loop svc g n 0 0 w)) = evs"
    by (simp add: new_calls_def tr)
  have zero: "Increase svc g 0 w = ((0, None), w)"
    by (simp add: Increase_def Increase_loop.simps [of svc g 0 0 0 w])
  show ?thesis
    using e tr len all cnt zero by (simp add: new w' c)
qed

text \<open>The mock fails every second creation, whatever the request.\<close>

lemma mock_attempt:
  "fst (Increase_attempt mockSvc g w) = (Suc (prov w) mod 2 \<noteq> 0) \<and>
   prov (snd (Increase_attempt mockSvc g w)) = Suc (prov w)"
  by (simp add: Increase_attempt_def invoke_def log_msg_def case_prod_beta Let_def
      randomSuffix_trace mockSvc_def)

theorem Increase_counts_witness:
  "fst (Increase mockSvc baseGroup 4 world0) = (2, None) \<and>
   length (new_calls world0 (snd (Increase mockSvc baseGroup 4 world0))) = 4 \<and>
   list_all is_CreateServer (new_calls world0 (snd (Increase mockSvc baseGroup 4 world0))) \<and>
   length (filter (\<lambda>ev. snd ev = None)
     (new_calls world0 (snd (Increase mockSvc baseGroup 4 world0)))) = 2 \<and>
   Increase mockSvc baseGroup 0 world0 = ((0, None), world0)"
proof -
  have two: "fst (fst (Increase mockSvc baseGroup 4 world0)) = 2"
    by (simp add: Increase_def case_prod_beta Increase_loop.simps mock_attempt world0_def)
  have zero: "Increase mockSvc baseGroup 0 world0 = ((0, None), world0)"
    using Increase_counts [of mockSvc baseGroup 0 world0] by blast
  have four: "snd (fst (Increase mockSvc baseGroup 4 world0)) = None"
    "length (new_calls world0 (snd (Increase mockSvc baseGroup 4 world0))) = nat 4"
    "list_all is_CreateServer (new_calls world0 (snd (Increase mockSvc baseGroup 4 world0)))"
    "fst (fst (Increase mockSvc baseGroup 4 world0)) =
       int (length (filter (\<lambda>ev. snd ev = None)
         (new_calls world0 (snd (Increase mockSvc baseGroup 4 world0)))))"
    using Increase_counts [of mockSvc baseGroup 4 world0] by blast+
  show ?thesis
    using four two zero by (simp add: prod_eq_iff)
qed

section \<open>Properties of the removal of one instance\<close>

lemma stopAndDelete_calls:
  "trace (snd (stopAndDelete svc uuid w)) =
     trace w @ new_calls w (snd (stopAndDelete svc uuid w)) \<and>
   ((\<exists>e. new_calls w (snd (stopAndDelete svc uuid w)) =
           [(StopServerCall \<lparr>stop_UUID = uuid, StopType = ''hard''\<rparr>, Some e)] \<and>
         fst (stopAndDelete svc uuid w) =
           Some (Wrapped (''stopping server '' @ uuid @ '': '' @ Error e) e)) \<or>
    (\<exists>e. new_calls w (snd (stopAndDelete svc uuid w)) =
           [(StopServerCall \<lparr>stop_UUID = uuid, StopType = ''hard''\<rparr>, None),
            (WaitForServerStateCall \<lparr>wait_UUID = uuid, DesiredState = ''stopped''\<rparr>, Some e)] \<and>
         fst (stopAndDelete svc uuid w) =
           Some (Wrapped (''waiting for server '' @ uuid @ '' to stop: '' @ Error e) e)) \<or>
    (\<exists>e. new_calls w (snd (stopAndDelete svc uuid w)) =
           [(StopServerCall \<lparr>stop_UUID = uuid, StopType = ''hard''\<rparr>, None),
            (WaitForServerStateCall \<lparr>wait_UUID = uuid, DesiredState = ''stopped''\<rparr>, None),
            (DeleteServerAndStoragesCall \<lparr>delete_UUID = uuid\<rparr>, Some e)] \<and>
         fst (stopAndDelete svc uuid w) =
           Some (Wrapped (''deleting server '' @ uuid @ '': '' @ Error e) e)) \<or>
    (new_calls w (snd (stopAndDelete svc uuid w)) =
       [(StopServerCall \<lparr>stop_UUID = uuid, StopType = ''hard''\<rparr>, None),
        (WaitForServerStateCall \<lparr>wait_UUID = uuid, DesiredState = ''stopped''\<rparr>, None),
        (DeleteServerAndStoragesCall \<lparr>delete_UUID = uuid\<rparr>, None)] \<and>
     fst (stopAndDelete svc uuid w) = None))"
proof -
  let ?stop = "\<lparr>stop_UUID = uuid, StopType = ''hard''\<rparr>"
  let ?wait = "\<lparr>wait_UUID = uuid, DesiredState = ''stopped''\<rparr>"
  let ?del = "\<lparr>delete_UUID = uuid\<rparr>"
  obtain r1 p1 where s1: "StopServer svc ?stop (prov w) = (r1, p1)"
    by (cases "StopServer svc ?stop (prov w)")
  obtain r2 p2 where s2: "WaitForServerState svc ?wait p1 = (r2, p2)"
    by (cases "WaitForServerState svc ?wait p1")
  obtain r3 p3 where s3: "DeleteServerAndStorages svc ?del p2 = (r3, p3)"
    by (cases "DeleteServerAndStorages svc ?del p2")
  show ?thesis
    by (cases r1; cases r2; cases r3)
      (simp_all add: stopAndDelete_def invoke_def invoke_err_def log_msg_def new_calls_def
        s1 s2 s3 Let_def result_err_def Errorf_w_def ServerStopTypeHard_def
        ServerStateStopped_def)
qed

lemma removal_task_outcome:
  "(fst (stopAndDelete svc uuid (sh_world sh)) = None \<longrightarrow>
      succeeded (removal_task svc uuid sh) = succeeded sh @ [uuid] \<and>
      firstErr (removal_task svc uuid sh) = firstErr sh) \<and>
   (fst (stopAndDelete svc uuid (sh_world sh)) \<noteq> None \<longrightarrow>
      succeeded (removal_task svc uuid sh) = succeeded sh \<and>
      firstErr (removal_task svc uuid sh) =
        (if firstErr sh = None then fst (stopAndDelete svc uuid (sh_world sh))
         else firstErr sh))"
  by (cases "stopAndDelete svc uuid (sh_world sh)")
    (auto simp add: removal_task_def split: option.splits)

text \<open>
  A task of the concurrent model that takes its steps without another task in between
  does what the body does when it runs on its own: at most five steps, three provider
  calls, a log line and a critical section.
\<close>

lemma task_run_removal:
  "task_run svc uuid 5 (AtStop, sh) =
     (Done (fst (stopAndDelete svc uuid (sh_world sh))), removal_task svc uuid sh)"
proof -
  let ?stop = "\<lparr>stop_UUID = uuid, StopType = ''hard''\<rparr>"
  let ?wait = "\<lparr>wait_UUID = uuid, DesiredState = ''stopped''\<rparr>"
  let ?del = "\<lparr>delete_UUID = uuid\<rparr>"
  obtain r1 p1 where s1: "StopServer svc ?stop (prov (sh_world sh)) = (r1, p1)"
    by (cases "StopServer svc ?stop (prov (sh_world sh))")
  obtain r2 p2 where s2: "WaitForServerState svc ?wait p1 = (r2, p2)"
    by (cases "WaitForServerState svc ?wait p1")
  obtain r3 p3 where s3: "DeleteServerAndStorages svc ?del p2 = (r3, p3)"
    by (cases "DeleteServerAndStorages svc ?del p2")
  show ?thesis
    by (cases r1; cases r2; cases r3)
      (simp_all add: eval_nat_numeral task_step_def removal_task_def stopAndDelete_def
        invoke_def invoke_err_def log_msg_def s1 s2 s3 Let_def ServerStopTypeHard_def
        ServerStateStopped_def)
qed

text \<open>
  Claim C3. The removal of one id calls the provider to hard-stop the server, then to
  wait for the stopped state, then to delete the server and its storages, in that order
  and each with that id. The calls it adds to the trace are a start of this chain that
  ends at the first call that fails: no later call is made. The error returned is then
  the failure, wrapped with the name of the step and the id ("stopping server <id>: ",
  "waiting for server <id> to stop: ", "deleting server <id>: "), and the task that runs
  the removal leaves \<open>succeeded\<close> as it was. Only when all three calls succeed is nil
  returned and the id appended to \<open>succeeded\<close>.
\<close>

theorem stopAndDelete_chain:
  "trace (snd (stopAndDelete svc uuid (sh_world sh))) =
     trace (sh_world sh) @ new_calls (sh_world sh) (snd (stopAndDelete svc uuid (sh_world sh))) \<and>
   ((\<exists>e. new_calls (sh_world sh) (snd (stopAndDelete svc uuid (sh_world sh))) =
           [(StopServerCall \<lparr>stop_UUID = uuid, StopType = ''hard''\<rparr>, Some e)] \<and>
         fst (stopAndDelete svc uuid (sh_world sh)) =
           Some (Wrapped (''stopping server '' @ uuid @ '': '' @ Error e) e) \<and>
         succeeded (removal_task svc uuid sh) = succeeded sh) \<or>
    (\<exists>e. new_calls (sh_world sh) (snd (stopAndDelete svc uuid (sh_world sh))) =
           [(StopServerCall \<lparr>stop_UUID = uuid, StopType = ''hard''\<rparr>, None),
            (WaitForServerStateCall \<lparr>wait_UUID = uuid, DesiredState = ''stopped''\<rparr>, Some e)] \<and>
         fst (stopAndDelete svc uuid (sh_world sh)) =
           Some (Wrapped (''waiting for server '' @ uuid @ '' to stop: '' @ Error e) e) \<and>
         succeeded (removal_task svc uuid sh) = succeeded sh) \<or>
    (\<exists>e. new_calls (sh_world sh) (snd (stopAndDelete svc uuid (sh_world sh))) =
           [(StopServerCall \<lparr>stop_UUID = uuid, StopType = ''hard''\<rparr>, None),
            (WaitForServerStateCall \<lparr>wait_UUID = uuid, DesiredState = ''stopped''\<rparr>, None),
            (DeleteServerAndStoragesCall \<lparr>delete_UUID = uuid\<rparr>, Some e)] \<and>
         fst (stopAndDelete svc uuid (sh_world sh)) =
           Some (Wrapped (''deleting server '' @ uuid @ '': '' @ Error e) e) \<and>
         succeeded (removal_task svc uuid sh) = succeeded sh) \<or>
    (new_calls (sh_world sh) (snd (stopAndDelete svc uuid (sh_world sh))) =
       [(StopServerCall \<lparr>stop_UUID = uuid, StopType = ''hard''\<rparr>, None),
        (WaitForServerStateCall \<lparr>wait_UUID = uuid, DesiredState = ''stopped''\<rparr>, None),
        (DeleteServerAndStoragesCall \<lparr>delete_UUID = uuid\<rparr>, None)] \<and>
     fst (stopAndDelete svc uuid (sh_world sh)) = None \<and>
     succeeded (removal_task svc uuid sh) = succeeded sh @ [uuid]))"
  using stopAndDelete_calls [of svc uuid "sh_world sh"] removal_task_outcome [of svc uuid sh]
  by auto

text \<open>The two ids of the test of a partial failure, each removed on its own.\<close>

theorem stopAndDelete_chain_witness:
  "stopAndDelete mockSvc ''uuid-bad'' world0 =
     (Some (Wrapped ''stopping server uuid-bad: stop failed'' (New ''stop failed'')),
      world0\<lparr>trace := [(StopServerCall \<lparr>stop_UUID = ''uuid-bad'', StopType = ''hard''\<rparr>,
                         Some (New ''stop failed''))]\<rparr>) \<and>
   succeeded (removal_task mockSvc ''uuid-bad''
                \<lparr>sh_world = world0, succeeded = [], firstErr = None\<rparr>) = [] \<and>
   fst (stopAndDelete mockSvc ''uuid-ok'' world0) = None \<and>
   trace (snd (stopAndDelete mockSvc ''uuid-ok'' world0)) =
     [(StopServerCall \<lparr>stop_UUID = ''uuid-ok'', StopType = ''hard''\<rparr>, None),
      (WaitForServerStateCall \<lparr>wait_UUID = ''uuid-ok'', DesiredState = ''stopped''\<rparr>, None),
      (DeleteServerAndStoragesCall \<lparr>delete_UUID = ''uuid-ok''\<rparr>, None)] \<and>
   succeeded (removal_task mockSvc ''uuid-ok''
                \<lparr>sh_world = world0, succeeded = [], firstErr = None\<rparr>) = [''uuid-ok'']"
proof -
  let ?sh = "\<lparr>sh_world = world0, succeeded = [], firstErr = None\<rparr>"
  have bad: "stopAndDelete mockSvc ''uuid-bad'' world0 =
     (Some (Wrapped ''stopping server uuid-bad: stop failed'' (New ''stop failed'')),
      world0\<lparr>trace := [(StopServerCall \<lparr>stop_UUID = ''uuid-bad'', StopType = ''hard''\<rparr>,
                         Some (New ''stop failed''))]\<rparr>)"
    by (simp add: stopAndDelete_def invoke_def mockSvc_def world0_def Let_def result_err_def
        Errorf_w_def ServerStopTypeHard_def)
  have ok: "fst (stopAndDelete mockSvc ''uuid-ok'' world0) = None"
    and ok_trace: "trace (snd (stopAndDelete mockSvc ''uuid-ok'' world0)) =
     [(StopServerCall \<lparr>stop_UUID = ''uuid-ok'', StopType = ''hard''\<rparr>, None),
      (WaitForServerStateCall \<lparr>wait_UUID = ''uuid-ok'', DesiredState = ''stopped''\<rparr>, None),
      (DeleteServerAndStoragesCall \<lparr>delete_UUID = ''uuid-ok''\<rparr>, None)]"
    by (simp_all add: stopAndDelete_def invoke_def invoke_err_def log_msg_def mockSvc_def
        world0_def Let_def result_err_def ServerStopTypeHard_def ServerStateStopped_def)
  have "succeeded (removal_task mockSvc ''uuid-bad'' ?sh) = []"
    using stopAndDelete_chain [of mockSvc "''uuid-bad''" ?sh] bad by auto
  moreover have "succeeded (removal_task mockSvc ''uuid-ok'' ?sh) = [''uuid-ok'']"
    using stopAndDelete_chain [of mockSvc "''uuid-ok''" ?sh] ok by auto
  ultimately show ?thesis
    using bad ok ok_trace by simp
qed

section \<open>Properties of Decrease\<close>

subsection \<open>One step of one task\<close>

lemma exec_task_out_of_range: "\<not> i < length (tasks c) \<Longrightarrow> exec_task svc i c = c"
  by (simp add: exec_task_def)

lemma exec_task_split:
  assumes "i < length (tasks c)"
  obtains A u p B where "tasks c = A @ (u, p) # B" and "length A = i"
    and "exec_task svc i c =
      \<lparr>shared = snd (task_step svc u p (shared c)),
       tasks = A @ (u, fst (task_step svc u p (shared c))) # B\<rparr>"
proof -
  obtain u p where t: "tasks c ! i = (u, p)" by (cases "tasks c ! i")
  let ?A = "take i (tasks c)" and ?B = "drop (Suc i) (tasks c)"
  have "tasks c = ?A @ (u, p) # ?B"
    using id_take_nth_drop [OF assms] t by simp
  moreover have "length ?A = i" using assms by simp
  moreover have "exec_task svc i c =
      \<lparr>shared = snd (task_step svc u p (shared c)),
       tasks = ?A @ (u, fst (task_step svc u p (shared c))) # ?B\<rparr>"
    using assms t by (simp add: exec_task_def case_prod_beta upd_conv_take_nth_drop)
  ultimately show thesis by (rule that)
qed

lemma task_step_succeeded:
  "succeeded (snd (task_step svc u p sh)) = (if p = AtAppend then succeeded sh @ [u] else succeeded sh)"
  by (cases p) (simp_all add: task_step_def case_prod_beta Let_def)

lemma task_step_firstErr:
  "firstErr (snd (task_step svc u p sh)) =
     (case p of AtSetErr e \<Rightarrow> (if firstErr sh = None then Some e else firstErr sh) | _ \<Rightarrow> firstErr sh)"
  by (cases p) (simp_all add: task_step_def case_prod_beta Let_def)

lemma task_step_Done:
  "fst (task_step svc u p sh) = Done r \<longleftrightarrow>
     (p = Done r \<or> (p = AtAppend \<and> r = None) \<or> (\<exists>e. p = AtSetErr e \<and> r = Some e))"
  by (cases p) (auto simp add: task_step_def case_prod_beta Let_def split: sum.splits option.splits)

lemma returned_error_step:
  "returned_error (fst (task_step svc u p sh)) =
     (case p of AtSetErr e \<Rightarrow> Some e | _ \<Rightarrow> returned_error p)"
  by (cases p) (simp_all add: task_step_def case_prod_beta Let_def split: sum.splits option.splits)

lemma removed_step:
  "(fst (task_step svc u p sh) = Done None) = (p = AtAppend \<or> p = Done None)"
  using task_step_Done [of svc u p sh None] by auto

lemma shared_inv_exec: "shared_inv c \<Longrightarrow> shared_inv (exec_task svc i c)"
proof (cases "i < length (tasks c)")
  case False
  assume "shared_inv c"
  with False show ?thesis by (simp add: exec_task_out_of_range)
next
  case True
  assume inv: "shared_inv c"
  from True obtain A u p B where ts: "tasks c = A @ (u, p) # B"
    and ex: "exec_task svc i c =
      \<lparr>shared = snd (task_step svc u p (shared c)),
       tasks = A @ (u, fst (task_step svc u p (shared c))) # B\<rparr>"
    by (rule exec_task_split)
  show ?thesis
    using inv
    by (cases p)
      (auto simp add: shared_inv_def ex ts removed_ids_def task_errors_def task_step_succeeded
        task_step_firstErr removed_step returned_error_step split: option.splits)
qed

lemma shared_inv_init: "shared_inv (Decrease_init instances w)"
  by (simp add: shared_inv_def Decrease_init_def removed_ids_def task_errors_def filter_empty_conv)

lemma shared_inv_run: "shared_inv c \<Longrightarrow> shared_inv (run svc sched c)"
  by (induction sched arbitrary: c) (simp_all add: shared_inv_exec)

lemma exec_task_ids: "map fst (tasks (exec_task svc i c)) = map fst (tasks c)"
proof (cases "i < length (tasks c)")
  case True
  then show ?thesis by (rule exec_task_split [of i c svc]) simp
qed (simp add: exec_task_out_of_range)

lemma run_ids: "map fst (tasks (run svc sched c)) = map fst (tasks c)"
  by (induction sched arbitrary: c) (simp_all add: exec_task_ids)

lemma run_append: "run svc (s1 @ s2) c = run svc s2 (run svc s1 c)"
  by (induction s1 arbitrary: c) simp_all

lemma firstErr_exec:
  "firstErr (shared c) = Some e \<Longrightarrow> firstErr (shared (exec_task svc i c)) = Some e"
proof (cases "i < length (tasks c)")
  case True
  assume "firstErr (shared c) = Some e"
  with True show ?thesis
    by (rule_tac exec_task_split [of i c svc]) (auto simp add: task_step_firstErr split: pc.splits)
qed (simp add: exec_task_out_of_range)

lemma firstErr_run:
  "firstErr (shared c) = Some e \<Longrightarrow> firstErr (shared (run svc sched c)) = Some e"
  by (induction sched arbitrary: c) (simp_all add: firstErr_exec)

subsection \<open>Runs: termination and the tasks at the end\<close>

lemma steps_left_step:
  "steps_left (fst (task_step svc u p sh)) \<le> steps_left p - 1"
  by (cases p) (simp_all add: task_step_def case_prod_beta Let_def split: sum.splits option.splits)

lemma exec_task_length: "length (tasks (exec_task svc i c)) = length (tasks c)"
  using exec_task_ids [of svc i c] by (metis length_map)

lemma run_length: "length (tasks (run svc sched c)) = length (tasks c)"
  using run_ids [of svc sched c] by (metis length_map)

lemma exec_task_other:
  "j \<noteq> i \<Longrightarrow> tasks (exec_task svc i c) ! j = tasks c ! j"
  by (simp add: exec_task_def case_prod_beta)

lemma exec_task_self:
  "i < length (tasks c) \<Longrightarrow>
     steps_left (snd (tasks (exec_task svc i c) ! i)) \<le> steps_left (snd (tasks c ! i)) - 1"
  using steps_left_step [of svc "fst (tasks c ! i)" "snd (tasks c ! i)" "shared c"]
  by (simp add: exec_task_def case_prod_beta)

lemma steps_left_run:
  "j < length (tasks c) \<Longrightarrow>
     steps_left (snd (tasks (run svc sched c) ! j)) \<le> steps_left (snd (tasks c ! j)) - count_list sched j"
proof (induction sched arbitrary: c)
  case Nil
  then show ?case by simp
next
  case (Cons i sched)
  have len: "j < length (tasks (exec_task svc i c))"
    using Cons.prems by (simp add: exec_task_length)
  note ih = Cons.IH [OF len]
  show ?case
  proof (cases "i = j")
    case True
    with exec_task_self [of j c svc] Cons.prems ih show ?thesis by simp
  next
    case False
    with exec_task_other [of j i svc c] ih show ?thesis by simp
  qed
qed

lemma steps_left_0: "steps_left p = 0 \<longleftrightarrow> is_Done p"
  by (cases p) (simp_all add: is_Done_def)

lemma fair_all_done:
  assumes "\<forall>i < length instances. 5 \<le> count_list sched i"
  shows "all_done (run svc sched (Decrease_init instances w))"
proof -
  let ?c0 = "Decrease_init instances w :: 'a config"
  have len0: "length (tasks ?c0) = length instances" by (simp add: Decrease_init_def)
  have "is_Done (snd (tasks (run svc sched ?c0) ! j))" if j: "j < length instances" for j
  proof -
    have "steps_left (snd (tasks ?c0 ! j)) = 5" using j by (simp add: Decrease_init_def)
    moreover have "5 \<le> count_list sched j" using assms j by simp
    ultimately have "steps_left (snd (tasks (run svc sched ?c0) ! j)) = 0"
      using steps_left_run [of j ?c0 svc sched] j len0 by simp
    then show ?thesis by (simp add: steps_left_0)
  qed
  then show ?thesis
    by (simp add: all_done_def list_all_length run_length len0)
qed

lemma run_empty: "run svc sched (Decrease_init [] w) = Decrease_init [] w"
  by (induction sched) (simp_all add: exec_task_def Decrease_init_def)

lemma done_partition:
  "list_all (\<lambda>t. is_Done (snd t)) ts \<Longrightarrow>
     length (removed_ids ts) + length (task_errors ts) = length ts"
proof (induction ts)
  case Nil
  then show ?case by (simp add: removed_ids_def task_errors_def)
next
  case (Cons t ts)
  obtain u p where t: "t = (u, p)" by (cases t)
  from Cons.prems t obtain r where p: "p = Done r"
    by (cases p) (simp_all add: is_Done_def)
  from Cons show ?case
    by (cases r) (simp_all add: t p removed_ids_def task_errors_def)
qed

lemma removed_ids_sub: "mset (removed_ids ts) \<subseteq># mset (map fst ts)"
  unfolding removed_ids_def
  by (metis image_mset_subseteq_mono mset_filter mset_map multiset_filter_subset)

subsection \<open>The provider calls behind the tasks\<close>

lemma task_step_calls:
  "\<exists>evs. trace (sh_world (snd (task_step svc u p sh))) = trace (sh_world sh) @ evs \<and>
     (case failure_of (fst (task_step svc u p sh)) of
        Some err \<Rightarrow> failure_of p = Some err \<or> wraps_failure err evs
      | None \<Rightarrow> failure_of p = None \<and>
          (calls_made u (fst (task_step svc u p sh)) = calls_made u p @ evs \<or>
           (evs = [] \<and> calls_made u (fst (task_step svc u p sh)) = calls_made u p)))"
proof (cases p)
  case AtStop
  then show ?thesis
    by (simp add: task_step_def invoke_def case_prod_beta Let_def removal_chain_def
        wraps_failure_def result_err_def Errorf_w_def split: sum.splits)
next
  case AtWait
  then show ?thesis
    by (simp add: task_step_def invoke_def case_prod_beta Let_def removal_chain_def
        wraps_failure_def result_err_def Errorf_w_def split: sum.splits)
next
  case AtDelete
  then show ?thesis
    by (simp add: task_step_def invoke_err_def case_prod_beta Let_def removal_chain_def
        wraps_failure_def Errorf_w_def split: option.splits)
next
  case (Done r)
  then show ?thesis by (cases r) (simp_all add: task_step_def)
qed (simp_all add: task_step_def log_msg_def)

lemma wraps_failure_append:
  "wraps_failure e tr \<or> wraps_failure e evs \<Longrightarrow> wraps_failure e (tr @ evs)"
  by (auto simp add: wraps_failure_def)

lemma place_ok_grow: "place_ok tr t \<Longrightarrow> place_ok (tr @ evs) t"
  by (auto simp add: place_ok_def wraps_failure_append split: option.splits)

lemma calls_inv_exec: "calls_inv w c \<Longrightarrow> calls_inv w (exec_task svc i c)"
proof (cases "i < length (tasks c)")
  case False
  assume "calls_inv w c"
  with False show ?thesis by (simp add: exec_task_out_of_range)
next
  case True
  assume inv: "calls_inv w c"
  from True obtain A u p B where ts: "tasks c = A @ (u, p) # B"
    and ex: "exec_task svc i c =
      \<lparr>shared = snd (task_step svc u p (shared c)),
       tasks = A @ (u, fst (task_step svc u p (shared c))) # B\<rparr>"
    by (rule exec_task_split)
  let ?p' = "fst (task_step svc u p (shared c))"
  let ?tr = "trace (sh_world (shared c))"
  let ?new = "new_calls w (sh_world (shared c))"
  obtain evs where tr': "trace (sh_world (snd (task_step svc u p (shared c)))) = ?tr @ evs"
    and step: "case failure_of ?p' of
        Some err \<Rightarrow> failure_of p = Some err \<or> wraps_failure err evs
      | None \<Rightarrow> failure_of p = None \<and>
          (calls_made u ?p' = calls_made u p @ evs \<or> (evs = [] \<and> calls_made u ?p' = calls_made u p))"
    using task_step_calls [of svc u p "shared c"] by blast
  from inv have pre: "take (length (trace w)) ?tr = trace w"
    and all: "list_all (place_ok ?new) (tasks c)"
    by (simp_all add: calls_inv_def)
  from pre have le: "length (trace w) \<le> length ?tr"
    by (metis length_take min.cobounded1 min.commute)
  have new': "new_calls w (sh_world (snd (task_step svc u p (shared c)))) = ?new @ evs"
    using le by (simp add: new_calls_def tr')
  from all have okA: "list_all (place_ok (?new @ evs)) A" and okB: "list_all (place_ok (?new @ evs)) B"
    and okp: "place_ok ?new (u, p)"
    by (auto simp add: ts list_all_iff intro: place_ok_grow)
  have "place_ok (?new @ evs) (u, ?p')"
  proof (cases "failure_of ?p'")
    case (Some err)
    with step okp show ?thesis
      by (auto simp add: place_ok_def wraps_failure_append)
  next
    case None
    with step okp show ?thesis
      by (auto simp add: place_ok_def)
  qed
  with okA okB pre le show ?thesis
    by (simp add: calls_inv_def ex tr' new')
qed

lemma calls_inv_init: "calls_inv w (Decrease_init instances w)"
  by (simp add: calls_inv_def Decrease_init_def new_calls_def place_ok_def list_all_iff)

lemma calls_inv_run: "calls_inv w c \<Longrightarrow> calls_inv w (run svc sched c)"
  by (induction sched arbitrary: c) (simp_all add: calls_inv_exec)

subsection \<open>What Decrease returns\<close>

lemma removed_ids_place:
  "list_all (place_ok tr) ts \<Longrightarrow> list_all (\<lambda>uuid. subseq (removal_chain uuid) tr) (removed_ids ts)"
  by (induction ts) (auto simp add: removed_ids_def place_ok_def)

lemma task_errors_place:
  "list_all (place_ok tr) ts \<Longrightarrow> list_all (\<lambda>err. wraps_failure err tr) (task_errors ts)"
proof (induction ts)
  case Nil
  then show ?case by (simp add: task_errors_def)
next
  case (Cons t ts)
  then have rest: "list_all (\<lambda>err. wraps_failure err tr) (task_errors ts)" by simp
  from Cons.prems have t: "place_ok tr t" by simp
  have "list_all (\<lambda>err. wraps_failure err tr)
      (case returned_error (snd t) of None \<Rightarrow> [] | Some err \<Rightarrow> [err])"
    using t by (cases "snd t") (auto simp add: place_ok_def split: option.splits)
  with rest show ?case by (simp add: task_errors_def)
qed

text \<open>
  A task that the scheduler lets take its steps in a row does what the body does when it
  runs on its own.
\<close>

lemma run_replicate:
  "i < length (tasks c) \<Longrightarrow> tasks c ! i = (u, p) \<Longrightarrow>
     run svc (replicate k i) c =
       \<lparr>shared = snd (task_run svc u k (p, shared c)),
        tasks = (tasks c)[i := (u, fst (task_run svc u k (p, shared c)))]\<rparr>"
proof (induction k arbitrary: c p)
  case 0
  then have "(tasks c)[i := (u, p)] = tasks c"
    by (metis list_update_id)
  then show ?case by simp
next
  case (Suc k)
  let ?c1 = "exec_task svc i c"
  have len: "i < length (tasks ?c1)"
    using Suc.prems(1) by (simp add: exec_task_length)
  have at: "tasks ?c1 ! i = (u, fst (task_step svc u p (shared c)))"
    and sh: "shared ?c1 = snd (task_step svc u p (shared c))"
    and ts: "tasks ?c1 = (tasks c)[i := (u, fst (task_step svc u p (shared c)))]"
    using Suc.prems by (simp_all add: exec_task_def case_prod_beta)
  show ?case
    using Suc.IH [OF len at] by (simp add: sh ts)
qed

lemma run_task_alone:
  "i < length (tasks c) \<Longrightarrow> tasks c ! i = (u, AtStop) \<Longrightarrow>
     run svc (replicate 5 i) c =
       \<lparr>shared = removal_task svc u (shared c),
        tasks = (tasks c)[i := (u, Done (fst (stopAndDelete svc u (sh_world (shared c)))))]\<rparr>"
  by (simp add: run_replicate [of i c u AtStop svc 5] task_run_removal)

text \<open>
  So under the schedule that runs the tasks one after the other, in the order of the
  ids, \<open>Decrease\<close> is the sequential program: it returns what the bodies leave when they
  run in turn.
\<close>

lemma run_in_turn:
  "tasks c = done @ map (\<lambda>uuid. (uuid, AtStop)) rest \<Longrightarrow>
     shared (run svc (concat (map (replicate 5) [length done..<length done + length rest])) c) =
       foldl (\<lambda>sh uuid. removal_task svc uuid sh) (shared c) rest"
proof (induction rest arbitrary: c "done")
  case Nil
  then show ?case by simp
next
  case (Cons u rest)
  let ?k = "length done"
  let ?c1 = "run svc (replicate 5 ?k) c"
  let ?r = "fst (stopAndDelete svc u (sh_world (shared c)))"
  have len: "?k < length (tasks c)" and at: "tasks c ! ?k = (u, AtStop)"
    using Cons.prems by (simp_all add: nth_append)
  have c1: "?c1 = \<lparr>shared = removal_task svc u (shared c),
      tasks = (tasks c)[?k := (u, Done ?r)]\<rparr>"
    using run_task_alone [OF len at] .
  have ts1: "tasks ?c1 = (done @ [(u, Done ?r)]) @ map (\<lambda>uuid. (uuid, AtStop)) rest"
    using Cons.prems by (simp add: c1 list_update_append)
  have e: "?k + length (u # rest) = Suc ?k + length rest" by simp
  have upt: "[?k..<?k + length (u # rest)] = ?k # [Suc ?k..<Suc ?k + length rest]"
    unfolding e by (rule upt_conv_Cons) simp
  have ih: "shared (run svc (concat (map (replicate 5) [Suc ?k..<Suc ?k + length rest])) ?c1) =
      foldl (\<lambda>sh uuid. removal_task svc uuid sh) (shared ?c1) rest"
    using Cons.IH [OF ts1] by simp
  have "run svc (concat (map (replicate 5) [?k..<?k + length (u # rest)])) c =
      run svc (concat (map (replicate 5) [Suc ?k..<Suc ?k + length rest])) ?c1"
    by (simp only: upt list.map concat.simps run_append)
  then show ?case
    using ih by (simp add: c1)
qed

lemma count_replicate: "count_list (replicate k j) i = (if j = i then k else 0)"
  by (induction k) auto

lemma count_in_turn:
  "count_list (concat (map (replicate k) xs)) i = k * count_list xs i"
  by (induction xs) (simp_all add: count_list_append count_replicate)

lemma count_upt: "count_list [0..<n] i = (if i < n then 1 else 0)"
  by (induction n) (simp_all add: count_list_append)

lemma Decrease_in_turn:
  "Decrease svc (concat (map (replicate 5) [0..<length instances])) instances w =
     (let sh = foldl (\<lambda>sh uuid. removal_task svc uuid sh)
                 \<lparr>sh_world = w, succeeded = [], firstErr = None\<rparr> instances
      in (Some (succeeded sh, firstErr sh), sh_world sh))"
proof -
  let ?sched = "concat (map (replicate 5) [0..<length instances])"
  let ?init = "Decrease_init instances w :: 'a config"
  have "all_done (run svc ?sched ?init)"
    by (rule fair_all_done) (simp add: count_in_turn count_upt)
  moreover have "shared (run svc ?sched ?init) =
      foldl (\<lambda>sh uuid. removal_task svc uuid sh) (shared ?init) instances"
    using run_in_turn [of ?init "[]" instances svc] by (simp add: Decrease_init_def)
  ultimately show ?thesis
    by (simp add: Decrease_def Decrease_return_def Let_def Decrease_init_def)
qed

text \<open>
  Claim C2. For every sequence of ids, every provider and every interleaving of the
  tasks: when \<open>Decrease\<close> returns, the ids it returns are, up to their order, exactly the
  ids of the tasks whose removal succeeded, an id as often as it was given and removed
  (the calls of its whole chain stand in the trace, in their order, each with no error);
  every task has either succeeded or failed; the error returned is not nil exactly when
  a task has failed, and then it is the error of one of the failed tasks (it wraps the
  error of a provider call in the trace), the first one that was stored: once set, the
  variable keeps its value to the end. \<open>Decrease\<close> returns under every schedule that
  gives each task its five steps. For the empty sequence it returns no ids and a nil
  error, and the world is as before: no provider call was made.
\<close>

theorem Decrease_result:
  "(Decrease svc sched instances w = (Some (succ, ferr), w') \<longrightarrow>
      mset succ = mset (removed_ids (tasks (run svc sched (Decrease_init instances w)))) \<and>
      map fst (tasks (run svc sched (Decrease_init instances w))) = instances \<and>
      mset succ \<subseteq># mset instances \<and>
      length succ + length (task_errors (tasks (run svc sched (Decrease_init instances w)))) =
        length instances \<and>
      (ferr \<noteq> None \<longleftrightarrow> task_errors (tasks (run svc sched (Decrease_init instances w))) \<noteq> []) \<and>
      (case ferr of
         None \<Rightarrow> True
       | Some err \<Rightarrow>
           err \<in> set (task_errors (tasks (run svc sched (Decrease_init instances w)))) \<and>
           wraps_failure err (new_calls w w')) \<and>
      list_all (\<lambda>uuid. subseq (removal_chain uuid) (new_calls w w')) succ \<and>
      (\<forall>s1 s2 e. sched = s1 @ s2 \<and>
         firstErr (shared (run svc s1 (Decrease_init instances w))) = Some e \<longrightarrow> ferr = Some e)) \<and>
   ((\<forall>i < length instances. 5 \<le> count_list sched i) \<longrightarrow>
      fst (Decrease svc sched instances w) \<noteq> None) \<and>
   Decrease svc sched [] w = (Some ([], None), w)"
proof (intro conjI impI)
  let ?init = "Decrease_init instances w :: 'a config"
  let ?fin = "run svc sched ?init"
  assume ret: "Decrease svc sched instances w = (Some (succ, ferr), w')"
  then have fin: "all_done ?fin" and succ: "succ = succeeded (shared ?fin)"
    and ferr: "ferr = firstErr (shared ?fin)" and w': "w' = sh_world (shared ?fin)"
    by (simp_all add: Decrease_def Decrease_return_def Let_def split: if_splits)
  have inv: "shared_inv ?fin" by (simp add: shared_inv_run shared_inv_init)
  have cinv: "calls_inv w ?fin" by (simp add: calls_inv_run calls_inv_init)
  have ids: "map fst (tasks ?fin) = instances"
    by (simp add: run_ids Decrease_init_def comp_def)
  show m: "mset succ = mset (removed_ids (tasks ?fin))"
    using inv by (simp add: shared_inv_def succ)
  show "map fst (tasks ?fin) = instances" by (rule ids)
  show "mset succ \<subseteq># mset instances"
    using removed_ids_sub [of "tasks ?fin"] by (simp add: m ids)
  have "length succ = length (removed_ids (tasks ?fin))"
    using m by (metis size_mset)
  moreover have "length (tasks ?fin) = length instances"
    using ids by (metis length_map)
  ultimately show "length succ + length (task_errors (tasks ?fin)) = length instances"
    using done_partition [of "tasks ?fin"] fin by (simp add: all_done_def)
  show "ferr \<noteq> None \<longleftrightarrow> task_errors (tasks ?fin) \<noteq> []"
    using inv by (simp add: shared_inv_def ferr)
  have places: "list_all (place_ok (new_calls w w')) (tasks ?fin)"
    using cinv by (simp add: calls_inv_def w')
  show "case ferr of None \<Rightarrow> True
      | Some err \<Rightarrow> err \<in> set (task_errors (tasks ?fin)) \<and> wraps_failure err (new_calls w w')"
    using inv task_errors_place [OF places]
    by (auto simp add: shared_inv_def ferr list_all_iff split: option.splits)
  have "list_all (\<lambda>uuid. subseq (removal_chain uuid) (new_calls w w')) (removed_ids (tasks ?fin))"
    using removed_ids_place [OF places] .
  moreover have "set succ = set (removed_ids (tasks ?fin))"
    using m by (metis set_mset_mset)
  ultimately show "list_all (\<lambda>uuid. subseq (removal_chain uuid) (new_calls w w')) succ"
    by (simp add: list_all_iff)
  show "\<forall>s1 s2 e. sched = s1 @ s2 \<and> firstErr (shared (run svc s1 ?init)) = Some e \<longrightarrow> ferr = Some e"
  proof (intro allI impI)
    fix s1 s2 e
    assume a: "sched = s1 @ s2 \<and> firstErr (shared (run svc s1 ?init)) = Some e"
    then have "firstErr (shared (run svc s2 (run svc s1 ?init))) = Some e"
      by (simp add: firstErr_run)
    with a show "ferr = Some e"
      by (simp add: ferr run_append)
  qed
next
  assume "\<forall>i < length instances. 5 \<le> count_list sched i"
  then have "all_done (run svc sched (Decrease_init instances w))"
    by (rule fair_all_done)
  then show "fst (Decrease svc sched instances w) \<noteq> None"
    by (simp add: Decrease_def Decrease_return_def Let_def)
next
  show "Decrease svc sched [] w = (Some ([], None), w)"
    unfolding Decrease_def Let_def run_empty
    by (simp add: Decrease_return_def all_done_def Decrease_init_def)
qed

text \<open>
  The test of a partial failure, with the two tasks taking turns; two ids removed under
  two schedules, which give the two orders; a schedule that ends too early, under which
  \<open>Decrease\<close> has not returned; and the empty sequence.
\<close>

theorem Decrease_result_witness:
  "fst (Decrease mockSvc [0, 1, 0, 1, 0, 1, 0, 1, 0, 1] [''uuid-ok'', ''uuid-bad''] world0) =
     Some ([''uuid-ok''],
           Some (Wrapped ''stopping server uuid-bad: stop failed'' (New ''stop failed''))) \<and>
   firstErr (shared (run mockSvc [0, 1, 0, 1, 0, 1]
                       (Decrease_init [''uuid-ok'', ''uuid-bad''] world0))) =
     Some (Wrapped ''stopping server uuid-bad: stop failed'' (New ''stop failed'')) \<and>
   list_all (\<lambda>uuid. subseq (removal_chain uuid)
       (new_calls world0
          (snd (Decrease mockSvc [0, 1, 0, 1, 0, 1, 0, 1, 0, 1] [''uuid-ok'', ''uuid-bad''] world0))))
     [''uuid-ok''] \<and>
   wraps_failure (Wrapped ''stopping server uuid-bad: stop failed'' (New ''stop failed''))
     (new_calls world0
        (snd (Decrease mockSvc [0, 1, 0, 1, 0, 1, 0, 1, 0, 1] [''uuid-ok'', ''uuid-bad''] world0))) \<and>
   fst (Decrease mockSvc [0, 0, 0, 0, 0, 1, 1, 1, 1, 1] [''uuid-1'', ''uuid-2''] world0) =
     Some ([''uuid-1'', ''uuid-2''], None) \<and>
   fst (Decrease mockSvc [1, 1, 1, 1, 1, 0, 0, 0, 0, 0] [''uuid-1'', ''uuid-2''] world0) =
     Some ([''uuid-2'', ''uuid-1''], None) \<and>
   fst (Decrease mockSvc [0, 1, 0, 1] [''uuid-1'', ''uuid-2''] world0) = None \<and>
   Decrease mockSvc [] [] world0 = (Some ([], None), world0)"
proof -
  let ?sched = "[0, 1, 0, 1, 0, 1, 0, 1, 0, 1] :: nat list"
  let ?ids = "[''uuid-ok'', ''uuid-bad'']"
  let ?err = "Wrapped ''stopping server uuid-bad: stop failed'' (New ''stop failed'')"
  note evals = Decrease_def Decrease_init_def exec_task_def task_step_def invoke_def
    invoke_err_def log_msg_def mockSvc_def world0_def Let_def Decrease_return_def all_done_def
    is_Done_def Errorf_w_def result_err_def ServerStopTypeHard_def ServerStateStopped_def
  have mixed: "fst (Decrease mockSvc ?sched ?ids world0) = Some ([''uuid-ok''], Some ?err)"
    by (simp add: evals)
  have early: "firstErr (shared (run mockSvc [0, 1, 0, 1, 0, 1] (Decrease_init ?ids world0))) =
      Some ?err"
    by (simp add: evals)
  have fwd: "fst (Decrease mockSvc [0, 0, 0, 0, 0, 1, 1, 1, 1, 1] [''uuid-1'', ''uuid-2''] world0) =
      Some ([''uuid-1'', ''uuid-2''], None)"
    by (simp add: evals)
  have bwd: "fst (Decrease mockSvc [1, 1, 1, 1, 1, 0, 0, 0, 0, 0] [''uuid-1'', ''uuid-2''] world0) =
      Some ([''uuid-2'', ''uuid-1''], None)"
    by (simp add: evals)
  have short: "fst (Decrease mockSvc [0, 1, 0, 1] [''uuid-1'', ''uuid-2''] world0) = None"
    by (simp add: evals)
  have ret: "Decrease mockSvc ?sched ?ids world0 =
      (Some ([''uuid-ok''], Some ?err), snd (Decrease mockSvc ?sched ?ids world0))"
    using mixed by (simp add: prod_eq_iff)
  have fair: "\<forall>i < length ?ids. 5 \<le> count_list ?sched i"
    by (simp add: less_Suc_eq)
  have cut: "?sched = [0, 1, 0, 1, 0, 1] @ [0, 1, 0, 1]"
    by simp
  note inst = Decrease_result [of mockSvc ?sched ?ids world0 "[''uuid-ok'']" "Some ?err"
      "snd (Decrease mockSvc ?sched ?ids world0)"]
  from inst ret have chain: "list_all (\<lambda>uuid. subseq (removal_chain uuid)
       (new_calls world0 (snd (Decrease mockSvc ?sched ?ids world0)))) [''uuid-ok'']"
    and wraps: "wraps_failure ?err (new_calls world0 (snd (Decrease mockSvc ?sched ?ids world0)))"
    by simp_all
  from inst fair have returns: "fst (Decrease mockSvc ?sched ?ids world0) \<noteq> None"
    by blast
  from inst ret cut early have first: "Some ?err = Some ?err"
    by blast
  have empty: "Decrease mockSvc [] [] world0 = (Some ([], None), world0)"
    using Decrease_result [of mockSvc "[]" "[]" world0] by blast
  from mixed early chain wraps fwd bwd short empty show ?thesis
    by simp
qed

end
